theory Spec2Isabelle
  imports Main
begin

section \<open>Python values used by the bot\<close>

text \<open>
  Exceptions of the source are values: every handler returns the state it has committed so
  far together with either a raised exception (\<open>Inl\<close>) or its return value (\<open>Inr\<close>).
  \<open>ChatError\<close> stands for any exception raised by the chat transport
  (\<open>bot.send_message\<close>, \<open>bot.edit_message_text\<close>).
\<close>

datatype py_error =
    OverflowError | ValueError | IndexError | KeyError | TypeError
  | IntegrityError | ChatError

definition ebind :: "py_error + 'a \<Rightarrow> ('a \<Rightarrow> py_error + 'b) \<Rightarrow> py_error + 'b" where
  "ebind m f = (case m of Inl e \<Rightarrow> Inl e | Inr x \<Rightarrow> f x)"

subsection \<open>Strings\<close>

text \<open>
  A \<open>string\<close> is read as a sequence of code points below 256. \<open>py_isspace\<close> is
  \<open>str.isspace\<close> on one such code point: TAB..CR, FS..US, space, NEL and NBSP.
\<close>

definition py_isspace :: "char \<Rightarrow> bool" where
  "py_isspace c =
     (let n = (of_char c :: nat)
      in (9 \<le> n \<and> n \<le> 13) \<or> (28 \<le> n \<and> n \<le> 32) \<or> n = 133 \<or> n = 160)"

definition py_lstrip :: "string \<Rightarrow> string" where
  "py_lstrip s = dropWhile py_isspace s"

definition py_rstrip :: "string \<Rightarrow> string" where
  "py_rstrip s = rev (dropWhile py_isspace (rev s))"

definition py_strip :: "string \<Rightarrow> string" where
  "py_strip s = py_rstrip (py_lstrip s)"

definition py_rstrip_chars :: "char \<Rightarrow> string \<Rightarrow> string" where
  "py_rstrip_chars c s = rev (dropWhile (\<lambda>x. x = c) (rev s))"

definition startswith :: "string \<Rightarrow> string \<Rightarrow> bool" where
  "startswith s p = (take (length p) s = p)"

text \<open>
  \<open>s.split(sep)\<close> for a non-empty separator: the pieces between the non-overlapping
  occurrences of \<open>sep\<close>, found from the left. The accumulator holds the current piece
  reversed. (Python raises on an empty separator; the source never passes one, and
  the model then returns the text unsplit.)
\<close>

function py_split_from :: "string \<Rightarrow> string \<Rightarrow> string \<Rightarrow> string list" where
  "py_split_from sep acc [] = [rev acc]"
| "py_split_from sep acc (c # cs) =
     (if sep \<noteq> [] \<and> take (length sep) (c # cs) = sep
      then rev acc # py_split_from sep [] (drop (length sep) (c # cs))
      else py_split_from sep (c # acc) cs)"
  by pat_completeness auto
termination
  by (relation "measure (\<lambda>(sep, acc, s). length s)") (auto simp: neq_Nil_conv)

definition py_split :: "string \<Rightarrow> string \<Rightarrow> string list" where
  "py_split s sep = py_split_from sep [] s"

text \<open>
  \<open>int(s)\<close> in base 10: surrounding whitespace is stripped, one sign is allowed, and the
  digits may be grouped by single underscores. \<open>None\<close> is the \<open>ValueError\<close>. (The
  interpreter's limit on the length of a literal is not modelled.)
\<close>

definition is_digit :: "char \<Rightarrow> bool" where
  "is_digit c = (let n = (of_char c :: nat) in 48 \<le> n \<and> n \<le> 57)"

definition digit_val :: "char \<Rightarrow> int" where
  "digit_val c = int (of_char c) - 48"

fun py_digits :: "int \<Rightarrow> string \<Rightarrow> int option" where
  "py_digits acc [] = Some acc"
| "py_digits acc [c] = (if is_digit c then Some (10 * acc + digit_val c) else None)"
| "py_digits acc (c # d # ds) =
     (if is_digit c then py_digits (10 * acc + digit_val c) (d # ds)
      else if c = CHR ''_'' \<and> is_digit d then py_digits (10 * acc + digit_val d) ds
      else None)"

definition py_unsigned :: "string \<Rightarrow> int option" where
  "py_unsigned s =
     (case s of [] \<Rightarrow> None
      | c # cs \<Rightarrow> if is_digit c then py_digits (digit_val c) cs else None)"

definition py_int :: "string \<Rightarrow> int option" where
  "py_int s =
     (case py_strip s of [] \<Rightarrow> None
      | c # cs \<Rightarrow>
          if c = CHR ''-'' then map_option uminus (py_unsigned cs)
          else if c = CHR ''+'' then py_unsigned cs
          else py_unsigned (c # cs))"

definition int_or_raise :: "string \<Rightarrow> py_error + int" where
  "int_or_raise s = (case py_int s of None \<Rightarrow> Inl ValueError | Some n \<Rightarrow> Inr n)"

definition item :: "'a list \<Rightarrow> nat \<Rightarrow> py_error + 'a" where
  "item xs i = (if i < length xs then Inr (xs ! i) else Inl IndexError)"

subsection \<open>Dates\<close>

text \<open>
  A \<open>datetime\<close> as Python holds it: the day as its proleptic Gregorian ordinal
  (\<open>date.toordinal()\<close>, day 1 is Monday 0001-01-01) and the wall-clock fields.
  Arithmetic on a zone-aware value moves the wall clock and keeps the zone, so the
  zone itself plays no part below.
\<close>

record datetime =
  dt_ordinal :: int
  dt_hour :: int
  dt_minute :: int
  dt_second :: int
  dt_microsecond :: int

definition MAXORDINAL :: int where
  "MAXORDINAL = 3652059"

definition weekday :: "datetime \<Rightarrow> int" where
  "weekday d = (dt_ordinal d + 6) mod 7"

definition add_days :: "datetime \<Rightarrow> int \<Rightarrow> py_error + datetime" where
  "add_days d n =
     (let ord = dt_ordinal d + n
      in if 0 < ord \<and> ord \<le> MAXORDINAL then Inr (d\<lparr>dt_ordinal := ord\<rparr>)
         else Inl OverflowError)"

definition replace_time :: "datetime \<Rightarrow> int \<Rightarrow> int \<Rightarrow> py_error + datetime" where
  "replace_time d h m =
     (if \<not> (0 \<le> h \<and> h \<le> 23) then Inl ValueError
      else if \<not> (0 \<le> m \<and> m \<le> 59) then Inl ValueError
      else Inr (d\<lparr>dt_hour := h, dt_minute := m, dt_second := 0, dt_microsecond := 0\<rparr>))"

section \<open>state.py: the publish date\<close>

text \<open>The \<open>while candidate.weekday() >= 5\<close> loop of \<open>compute_publish_date\<close>.\<close>

function skip_weekend :: "datetime \<Rightarrow> py_error + datetime" where
  "skip_weekend candidate =
     (if weekday candidate \<ge> 5
      then (case add_days candidate 1 of
              Inl e \<Rightarrow> Inl e
            | Inr next_day \<Rightarrow> skip_weekend next_day)
      else Inr candidate)"
  by pat_completeness auto
termination
  by (relation "measure (\<lambda>d. nat (MAXORDINAL + 1 - dt_ordinal d))")
     (auto simp: add_days_def Let_def split: if_splits)

declare skip_weekend.simps [simp del]

text \<open>
  \<open>compute_publish_date\<close>; \<open>now\<close> is \<open>datetime.now(tz)\<close>, the wall clock in the
  configured zone.
\<close>

definition compute_publish_date :: "datetime \<Rightarrow> string \<Rightarrow> py_error + datetime" where
  "compute_publish_date now publish_time_str =
     ebind (add_days now 1) (\<lambda>candidate.
     ebind (skip_weekend candidate) (\<lambda>candidate.
     ebind (item (py_split publish_time_str '':'') 0) (\<lambda>h_str.
     ebind (int_or_raise h_str) (\<lambda>hour.
     ebind (item (py_split publish_time_str '':'') 1) (\<lambda>m_str.
     ebind (int_or_raise m_str) (\<lambda>minute.
     replace_time candidate hour minute))))))"

section \<open>db.py: the tables\<close>

text \<open>
  One record per table row. Timestamps are integers on one clock (seconds); the
  textual comparison of ISO timestamps that SQLite performs is the order of these
  integers. The \<open>publish_date\<close> column holds the date of the computed slot as its ordinal.
\<close>

datatype sub_status = PendingAssignment | Assigning | UnderReview | Accepted | Rejected

datatype asg_status = Pending | Confirmed | Declined | Done

record email_data =
  ed_gmail_message_id :: string
  ed_gmail_thread_id :: "string option"
  ed_title :: string
  ed_author_name :: string
  ed_author_email :: string
  ed_medium_url :: "string option"
  ed_email_subject :: string
  ed_email_body :: string

record submission =
  sub_id :: nat
  sub_email :: email_data
  sub_status :: sub_status
  created_at :: int
  accepted_at :: "int option"
  rejected_at :: "int option"
  publish_date :: "int option"
  tg_status_message_id :: "int option"

record assignment =
  asg_id :: nat
  asg_submission_id :: nat
  reviewer_tg_username :: string
  reviewer_tg_id :: "int option"
  asg_status :: asg_status
  assigned_at :: int
  responded_at :: "int option"
  done_at :: "int option"

record followup =
  fu_id :: nat
  fu_submission_id :: nat
  scheduled_at :: int
  sent_at :: "int option"

record history =
  hist_id :: nat
  hist_submission_id :: nat
  hist_reviewer :: string
  hist_assigned_at :: int

record rejection =
  rej_id :: nat
  rej_submission_id :: nat
  proposed_by :: string
  reason :: string
  seconds :: "string list"
  tg_proposal_message_id :: "int option"
  proposed_at :: int

text \<open>
  What the handlers post. A chat message keeps the data that decides its content and
  its buttons; its wording is left out.
\<close>

datatype chat_msg =
    MsgAssignFailed nat
  | MsgAnnouncement nat "string list"
  | MsgReviewerRequest nat "string list"
  | MsgReplacement nat string string
  | MsgManualOverride nat string "string list"
  | MsgUnderReview nat "string list"
  | MsgWaiting nat string "string list"
  | MsgAccepted nat int
  | MsgProposal nat string string
  | MsgSecondEdit "int option" "string list" bool
  | MsgRejected nat
  | MsgOverride nat "string list"
  | MsgFollowup nat "string list"

datatype mail = UnderReviewEmail nat | AcceptanceEmail nat int | RejectionEmail nat string

text \<open>
  The store and the two outboxes. \<open>assignments_seq\<close> is the \<open>sqlite_sequence\<close> entry of
  the one table rows are deleted from: an \<open>AUTOINCREMENT\<close> key is one more than the
  largest key the table has ever held.
\<close>

record world =
  submissions :: "submission list"
  assignments :: "assignment list"
  assignments_seq :: nat
  followups :: "followup list"
  assignment_history :: "history list"
  rejections :: "rejection list"
  chat_log :: "chat_msg list"
  mail_log :: "mail list"

definition init_db :: world where
  "init_db = \<lparr>submissions = [], assignments = [], assignments_seq = 0, followups = [],
              assignment_history = [], rejections = [], chat_log = [], mail_log = []\<rparr>"

text \<open>
  What a handler call reads from outside: the clock, the wall clock of the publish
  zone, whether the chat transport and the mail gateway deliver during this call,
  and the id the transport gives a posted message.
\<close>

record env =
  clock :: int
  local_now :: datetime
  chat_ok :: bool
  mail_ok :: bool
  posted_message_id :: int

text \<open>
  The configuration keys the handlers read: \<open>telegram.operator_user_id\<close> and
  \<open>workflow.publish_time\<close> are read with \<open>.get\<close>, so they may be absent.
\<close>

record config =
  operator_user_id :: "int option"
  followup_interval_days :: int
  publish_time :: "string option"

text \<open>
  The reviewer-picker's answer after \<open>_parse_json_response\<close>: the call raises, or it
  yields a dictionary whose \<open>reviewer1\<close> and \<open>reviewer2\<close> entries, when present, are
  strings.
\<close>

record llm_reply =
  reviewer1 :: "string option"
  reviewer2 :: "string option"

datatype picker_result = PickerFailure | PickerReply llm_reply

text \<open>The strings the handlers return, one constructor each; \<open>ReturnNone\<close> for no value.\<close>

datatype reply =
    ReturnNone | AssignmentNotFound | AlreadyRecorded | ConfirmedThanks
  | NotedLookingForReplacement | SubmissionNotFound | NotUnderReview | NotAssigned
  | ReviewMarkedDone | NoActiveProposal | SelfSecond | SecondRecordedWaiting
  | SecondRecorded nat | OnlyOperator | RejectionConfirmed | OverrideApplied

definition next_rowid :: "nat list \<Rightarrow> nat" where
  "next_rowid ids = Suc (foldr max ids 0)"

section \<open>db.py: the queries\<close>

text \<open>
  The eight columns an inbound message fills are kept together as \<open>sub_email\<close>.
  Result rows come in table order where the query has no \<open>ORDER BY\<close>.
\<close>

definition get_submission_by_id :: "world \<Rightarrow> nat \<Rightarrow> submission option" where
  "get_submission_by_id w sid = find (\<lambda>s. sub_id s = sid) (submissions w)"

definition get_submission_by_gmail_id :: "world \<Rightarrow> string \<Rightarrow> submission option" where
  "get_submission_by_gmail_id w gid =
     find (\<lambda>s. ed_gmail_message_id (sub_email s) = gid) (submissions w)"

text \<open>\<open>gmail_message_id\<close> is \<open>UNIQUE\<close>: a second row with the same value is refused.\<close>

definition insert_submission :: "world \<Rightarrow> email_data \<Rightarrow> int \<Rightarrow> py_error + (world \<times> nat)" where
  "insert_submission w ed now =
     (if get_submission_by_gmail_id w (ed_gmail_message_id ed) \<noteq> None then Inl IntegrityError
      else
        let new_id = next_rowid (map sub_id (submissions w));
            row = \<lparr>sub_id = new_id, sub_email = ed, sub_status = PendingAssignment,
                   created_at = now, accepted_at = None, rejected_at = None,
                   publish_date = None, tg_status_message_id = None\<rparr>
        in Inr (w\<lparr>submissions := submissions w @ [row]\<rparr>, new_id))"

definition update_submission_status :: "world \<Rightarrow> nat \<Rightarrow> sub_status \<Rightarrow> world" where
  "update_submission_status w sid st =
     w\<lparr>submissions :=
         map (\<lambda>s. if sub_id s = sid then s\<lparr>sub_status := st\<rparr> else s) (submissions w)\<rparr>"

definition set_submission_accepted :: "world \<Rightarrow> nat \<Rightarrow> int \<Rightarrow> int \<Rightarrow> world" where
  "set_submission_accepted w sid pdate now =
     w\<lparr>submissions :=
         map (\<lambda>s. if sub_id s = sid
                   then s\<lparr>sub_status := Accepted, accepted_at := Some now,
                          publish_date := Some pdate\<rparr>
                   else s) (submissions w)\<rparr>"

definition set_submission_rejected :: "world \<Rightarrow> nat \<Rightarrow> int \<Rightarrow> world" where
  "set_submission_rejected w sid now =
     w\<lparr>submissions :=
         map (\<lambda>s. if sub_id s = sid
                   then s\<lparr>sub_status := Rejected, rejected_at := Some now\<rparr>
                   else s) (submissions w)\<rparr>"

definition set_tg_status_message_id :: "world \<Rightarrow> nat \<Rightarrow> int \<Rightarrow> world" where
  "set_tg_status_message_id w sid mid =
     w\<lparr>submissions :=
         map (\<lambda>s. if sub_id s = sid then s\<lparr>tg_status_message_id := Some mid\<rparr> else s)
             (submissions w)\<rparr>"

text \<open>
  \<open>insert_assignment\<close> writes the assignment row and its history line in one
  transaction. Foreign keys are enforced (\<open>PRAGMA foreign_keys = ON\<close>): a row for a
  submission that does not exist is refused.
\<close>

definition insert_assignment :: "world \<Rightarrow> nat \<Rightarrow> string \<Rightarrow> int \<Rightarrow> py_error + world" where
  "insert_assignment w sid username now =
     (if get_submission_by_id w sid = None then Inl IntegrityError
      else
        let new_id = Suc (max (assignments_seq w) (foldr max (map asg_id (assignments w)) 0));
            row = \<lparr>asg_id = new_id, asg_submission_id = sid, reviewer_tg_username = username,
                   reviewer_tg_id = None, asg_status = Pending, assigned_at = now,
                   responded_at = None, done_at = None\<rparr>;
            hrow = \<lparr>hist_id = next_rowid (map hist_id (assignment_history w)),
                    hist_submission_id = sid, hist_reviewer = username,
                    hist_assigned_at = now\<rparr>
        in Inr (w\<lparr>assignments := assignments w @ [row], assignments_seq := new_id,
                  assignment_history := assignment_history w @ [hrow]\<rparr>))"

text \<open>\<open>ORDER BY id DESC LIMIT 1\<close>: the row with the largest key.\<close>

fun latest_by_id :: "assignment list \<Rightarrow> assignment option" where
  "latest_by_id [] = None"
| "latest_by_id (a # rest) =
     (case latest_by_id rest of
        None \<Rightarrow> Some a
      | Some b \<Rightarrow> if asg_id a < asg_id b then Some b else Some a)"

definition get_assignment :: "world \<Rightarrow> nat \<Rightarrow> string \<Rightarrow> assignment option" where
  "get_assignment w sid username =
     latest_by_id (filter (\<lambda>a. asg_submission_id a = sid \<and> reviewer_tg_username a = username)
                          (assignments w))"

definition get_assignments_for_submission :: "world \<Rightarrow> nat \<Rightarrow> assignment list" where
  "get_assignments_for_submission w sid =
     filter (\<lambda>a. asg_submission_id a = sid) (assignments w)"

definition get_confirmed_reviewers :: "world \<Rightarrow> nat \<Rightarrow> assignment list" where
  "get_confirmed_reviewers w sid =
     filter (\<lambda>a. asg_submission_id a = sid \<and> asg_status a = Confirmed) (assignments w)"

definition get_done_reviewers :: "world \<Rightarrow> nat \<Rightarrow> assignment list" where
  "get_done_reviewers w sid =
     filter (\<lambda>a. asg_submission_id a = sid \<and> asg_status a = Done) (assignments w)"

text \<open>Both updates touch every row of the pairing, not only the latest one.\<close>

definition update_assignment_status ::
  "world \<Rightarrow> nat \<Rightarrow> string \<Rightarrow> asg_status \<Rightarrow> int option \<Rightarrow> int \<Rightarrow> world" where
  "update_assignment_status w sid username st tg_id now =
     w\<lparr>assignments :=
         map (\<lambda>a. if asg_submission_id a = sid \<and> reviewer_tg_username a = username
                   then (case tg_id of
                           Some t \<Rightarrow> a\<lparr>asg_status := st, responded_at := Some now,
                                        reviewer_tg_id := Some t\<rparr>
                         | None \<Rightarrow> a\<lparr>asg_status := st, responded_at := Some now\<rparr>)
                   else a) (assignments w)\<rparr>"

definition mark_assignment_done :: "world \<Rightarrow> nat \<Rightarrow> string \<Rightarrow> int option \<Rightarrow> int \<Rightarrow> world" where
  "mark_assignment_done w sid username tg_id now =
     w\<lparr>assignments :=
         map (\<lambda>a. if asg_submission_id a = sid \<and> reviewer_tg_username a = username
                   then (case tg_id of
                           Some t \<Rightarrow> a\<lparr>asg_status := Done, done_at := Some now,
                                        reviewer_tg_id := Some t\<rparr>
                         | None \<Rightarrow> a\<lparr>asg_status := Done, done_at := Some now\<rparr>)
                   else a) (assignments w)\<rparr>"

definition clear_pending_assignments :: "world \<Rightarrow> nat \<Rightarrow> world" where
  "clear_pending_assignments w sid =
     w\<lparr>assignments :=
         filter (\<lambda>a. \<not> (asg_submission_id a = sid \<and>
                         (asg_status a = Pending \<or> asg_status a = Declined)))
                (assignments w)\<rparr>"

definition insert_followup :: "world \<Rightarrow> nat \<Rightarrow> int \<Rightarrow> py_error + world" where
  "insert_followup w sid at =
     (if get_submission_by_id w sid = None then Inl IntegrityError
      else
        let row = \<lparr>fu_id = next_rowid (map fu_id (followups w)), fu_submission_id = sid,
                   scheduled_at = at, sent_at = None\<rparr>
        in Inr (w\<lparr>followups := followups w @ [row]\<rparr>))"

definition get_pending_followups :: "world \<Rightarrow> int \<Rightarrow> followup list" where
  "get_pending_followups w now =
     filter (\<lambda>f. scheduled_at f \<le> now \<and> sent_at f = None \<and>
                 (case get_submission_by_id w (fu_submission_id f) of
                    None \<Rightarrow> False
                  | Some s \<Rightarrow> sub_status s = UnderReview))
            (followups w)"

definition mark_followup_sent :: "world \<Rightarrow> nat \<Rightarrow> int \<Rightarrow> world" where
  "mark_followup_sent w fid now =
     w\<lparr>followups :=
         map (\<lambda>f. if fu_id f = fid then f\<lparr>sent_at := Some now\<rparr> else f) (followups w)\<rparr>"

definition insert_rejection ::
  "world \<Rightarrow> nat \<Rightarrow> string \<Rightarrow> string \<Rightarrow> int option \<Rightarrow> int \<Rightarrow> py_error + (world \<times> nat)" where
  "insert_rejection w sid by_user why mid now =
     (if get_submission_by_id w sid = None then Inl IntegrityError
      else
        let new_id = next_rowid (map rej_id (rejections w));
            row = \<lparr>rej_id = new_id, rej_submission_id = sid, proposed_by = by_user,
                   reason = why, seconds = [], tg_proposal_message_id = mid,
                   proposed_at = now\<rparr>
        in Inr (w\<lparr>rejections := rejections w @ [row]\<rparr>, new_id))"

text \<open>
  \<open>ORDER BY proposed_at DESC LIMIT 1\<close>. Among rows with the same timestamp SQLite
  leaves the choice open; the model takes the first of them in table order.
\<close>

fun latest_by_time :: "rejection list \<Rightarrow> rejection option" where
  "latest_by_time [] = None"
| "latest_by_time (r # rest) =
     (case latest_by_time rest of
        None \<Rightarrow> Some r
      | Some b \<Rightarrow> if proposed_at r < proposed_at b then Some b else Some r)"

definition get_active_rejection :: "world \<Rightarrow> nat \<Rightarrow> rejection option" where
  "get_active_rejection w sid =
     latest_by_time (filter (\<lambda>r. rej_submission_id r = sid) (rejections w))"

definition add_second_to_rejection :: "world \<Rightarrow> nat \<Rightarrow> string \<Rightarrow> world \<times> string list" where
  "add_second_to_rejection w rid username =
     (let secs = (case find (\<lambda>r. rej_id r = rid) (rejections w) of
                    None \<Rightarrow> [] | Some row \<Rightarrow> seconds row);
          secs' = (if username \<notin> set secs then secs @ [username] else secs)
      in (w\<lparr>rejections :=
              map (\<lambda>r. if rej_id r = rid then r\<lparr>seconds := secs'\<rparr> else r) (rejections w)\<rparr>,
          secs'))"

definition set_rejection_proposal_message_id :: "world \<Rightarrow> nat \<Rightarrow> int \<Rightarrow> world" where
  "set_rejection_proposal_message_id w rid mid =
     w\<lparr>rejections :=
         map (\<lambda>r. if rej_id r = rid then r\<lparr>tg_proposal_message_id := Some mid\<rparr> else r)
             (rejections w)\<rparr>"

section \<open>state.py: the handlers\<close>

definition post :: "world \<Rightarrow> chat_msg \<Rightarrow> world" where
  "post w m = w\<lparr>chat_log := chat_log w @ [m]\<rparr>"

definition send_mail :: "world \<Rightarrow> mail \<Rightarrow> world" where
  "send_mail w m = w\<lparr>mail_log := mail_log w @ [m]\<rparr>"

text \<open>\<open>str.lower\<close> on the letters a chat username can hold.\<close>

definition py_lower_char :: "char \<Rightarrow> char" where
  "py_lower_char c =
     (let n = (of_char c :: nat) in if 65 \<le> n \<and> n \<le> 90 then char_of (n + 32) else c)"

definition py_lower :: "string \<Rightarrow> string" where
  "py_lower s = map py_lower_char s"

text \<open>
  \<open>for r in reviewers: db.insert_assignment(sub_id, r)\<close>; each insert commits by
  itself, so a failing one leaves the earlier rows in place.
\<close>

fun insert_each :: "world \<Rightarrow> nat \<Rightarrow> string list \<Rightarrow> int \<Rightarrow> world \<times> py_error option" where
  "insert_each w sid [] now = (w, None)"
| "insert_each w sid (r # rs) now =
     (case insert_assignment w sid r now of
        Inl err \<Rightarrow> (w, Some err)
      | Inr w' \<Rightarrow> insert_each w' sid rs now)"

definition handle_new_submission ::
  "config \<Rightarrow> env \<Rightarrow> world \<Rightarrow> email_data \<Rightarrow> picker_result \<Rightarrow> world \<times> (py_error + reply)" where
  "handle_new_submission cfg e w ed orc =
     (if get_submission_by_gmail_id w (ed_gmail_message_id ed) \<noteq> None
      then (w, Inr ReturnNone)
      else case insert_submission w ed (clock e) of
        Inl err \<Rightarrow> (w, Inl err)
      | Inr (w1, sid) \<Rightarrow>
          (case orc of
             PickerFailure \<Rightarrow>
               if chat_ok e then (post w1 (MsgAssignFailed sid), Inr ReturnNone)
               else (w1, Inl ChatError)
           | PickerReply r \<Rightarrow>
               (case reviewer1 r of
                  None \<Rightarrow> (w1, Inl KeyError)
                | Some r1 \<Rightarrow>
                    let r2 = (case reviewer2 r of None \<Rightarrow> [] | Some x \<Rightarrow> x);
                        reviewers = map py_strip
                                      (filter (\<lambda>x. x \<noteq> [] \<and> py_strip x \<noteq> []) [r1, r2])
                    in (case insert_each w1 sid reviewers (clock e) of
                          (w2, Some err) \<Rightarrow> (w2, Inl err)
                        | (w2, None) \<Rightarrow>
                            let w3 = update_submission_status w2 sid Assigning
                            in if chat_ok e
                               then (set_tg_status_message_id
                                       (post (post w3 (MsgAnnouncement sid reviewers))
                                             (MsgReviewerRequest sid reviewers))
                                       sid (posted_message_id e),
                                     Inr ReturnNone)
                               else (w3, Inl ChatError)))))"

definition transition_to_under_review ::
  "config \<Rightarrow> env \<Rightarrow> world \<Rightarrow> nat \<Rightarrow> world \<times> (py_error + reply)" where
  "transition_to_under_review cfg e w sid =
     (let sub = get_submission_by_id w sid;
          confirmed = get_confirmed_reviewers w sid;
          reviewers = map reviewer_tg_username confirmed;
          w1 = update_submission_status w sid UnderReview;
          next_followup = clock e + followup_interval_days cfg * 86400
      in case insert_followup w1 sid next_followup of
           Inl err \<Rightarrow> (w1, Inl err)
         | Inr w2 \<Rightarrow>
             let w3 = (if mail_ok e \<and> sub \<noteq> None then send_mail w2 (UnderReviewEmail sid)
                       else w2)
             in (case sub of
                   None \<Rightarrow> (w3, Inl TypeError)
                 | Some _ \<Rightarrow>
                     if chat_ok e
                     then (set_tg_status_message_id (post w3 (MsgUnderReview sid reviewers))
                             sid (posted_message_id e),
                           Inr ReturnNone)
                     else (w3, Inl ChatError)))"

definition handle_reviewer_accept ::
  "config \<Rightarrow> env \<Rightarrow> world \<Rightarrow> nat \<Rightarrow> string \<Rightarrow> int \<Rightarrow> world \<times> (py_error + reply)" where
  "handle_reviewer_accept cfg e w sid username tg_user_id =
     (case get_assignment w sid username of
        None \<Rightarrow> (w, Inr AssignmentNotFound)
      | Some a \<Rightarrow>
          if asg_status a \<noteq> Pending then (w, Inr AlreadyRecorded)
          else
            let w1 = update_assignment_status w sid username Confirmed (Some tg_user_id)
                       (clock e);
                all_assignments = get_assignments_for_submission w1 sid;
                active = filter (\<lambda>a. asg_status a \<noteq> Declined) all_assignments;
                still_pending = filter (\<lambda>a. asg_status a = Pending) active
            in if still_pending = [] \<and> active \<noteq> []
               then (case transition_to_under_review cfg e w1 sid of
                       (w2, Inl err) \<Rightarrow> (w2, Inl err)
                     | (w2, Inr _) \<Rightarrow> (w2, Inr ConfirmedThanks))
               else (w1, Inr ConfirmedThanks))"

text \<open>
  The \<open>try\<close> block of \<open>handle_reviewer_decline\<close>: the state it leaves and whether it
  raised. Every exception inside it, the transport's included, leads to the
  \<open>except\<close> branch.
\<close>

definition replacement_attempt ::
  "env \<Rightarrow> world \<Rightarrow> nat \<Rightarrow> string \<Rightarrow> string list \<Rightarrow> picker_result \<Rightarrow> world \<times> bool" where
  "replacement_attempt e w sid username excluded orc =
     (case orc of
        PickerFailure \<Rightarrow> (w, True)
      | PickerReply r \<Rightarrow>
          (case reviewer1 r of
             None \<Rightarrow> (w, True)
           | Some r1 \<Rightarrow>
               let new_reviewer = py_strip r1
               in if new_reviewer = [] \<or> py_lower new_reviewer \<in> set (map py_lower excluded)
                  then (w, True)
                  else (case insert_assignment w sid new_reviewer (clock e) of
                          Inl err \<Rightarrow> (w, True)
                        | Inr w2 \<Rightarrow>
                            if chat_ok e
                            then (post w2 (MsgReplacement sid username new_reviewer), False)
                            else (w2, True))))"

definition handle_reviewer_decline ::
  "config \<Rightarrow> env \<Rightarrow> world \<Rightarrow> nat \<Rightarrow> string \<Rightarrow> int \<Rightarrow> picker_result \<Rightarrow> world \<times> (py_error + reply)" where
  "handle_reviewer_decline cfg e w sid username tg_user_id orc =
     (case get_assignment w sid username of
        None \<Rightarrow> (w, Inr AssignmentNotFound)
      | Some a \<Rightarrow>
          if asg_status a \<noteq> Pending then (w, Inr AlreadyRecorded)
          else
            let w1 = update_assignment_status w sid username Declined (Some tg_user_id)
                       (clock e);
                excluded = map reviewer_tg_username (get_assignments_for_submission w1 sid)
            in (case get_submission_by_id w1 sid of
                  None \<Rightarrow> (w1, Inl TypeError)
                | Some sub \<Rightarrow>
                    (case replacement_attempt e w1 sid username excluded orc of
                       (w2, False) \<Rightarrow> (w2, Inr NotedLookingForReplacement)
                     | (w2, True) \<Rightarrow>
                         let confirmed = get_confirmed_reviewers w2 sid
                         in if chat_ok e
                            then (post w2 (MsgManualOverride sid username
                                             (map reviewer_tg_username confirmed)),
                                  Inr NotedLookingForReplacement)
                            else (w2, Inl ChatError))))"

definition transition_to_accepted ::
  "config \<Rightarrow> env \<Rightarrow> world \<Rightarrow> nat \<Rightarrow> assignment list \<Rightarrow> world \<times> (py_error + reply)" where
  "transition_to_accepted cfg e w sid done_assignments =
     (let sub = get_submission_by_id w sid;
          publish_time_str = (case publish_time cfg of None \<Rightarrow> ''09:30'' | Some t \<Rightarrow> t)
      in case compute_publish_date (local_now e) publish_time_str of
           Inl err \<Rightarrow> (w, Inl err)
         | Inr publish_dt \<Rightarrow>
             let w1 = set_submission_accepted w sid (dt_ordinal publish_dt) (clock e)
             in (case sub of
                   None \<Rightarrow> (w1, Inl TypeError)
                 | Some _ \<Rightarrow>
                     if chat_ok e
                     then let w2 = post w1 (MsgAccepted sid (dt_ordinal publish_dt))
                          in ((if mail_ok e
                               then send_mail w2 (AcceptanceEmail sid (dt_ordinal publish_dt))
                               else w2),
                              Inr ReturnNone)
                     else (w1, Inl ChatError)))"

definition handle_reviewer_done ::
  "config \<Rightarrow> env \<Rightarrow> world \<Rightarrow> nat \<Rightarrow> string \<Rightarrow> int \<Rightarrow> world \<times> (py_error + reply)" where
  "handle_reviewer_done cfg e w sid username tg_user_id =
     (case get_submission_by_id w sid of
        None \<Rightarrow> (w, Inr SubmissionNotFound)
      | Some sub \<Rightarrow>
          if sub_status sub \<noteq> UnderReview \<and> sub_status sub \<noteq> Assigning
          then (w, Inr NotUnderReview)
          else (case get_assignment w sid username of
            None \<Rightarrow> (w, Inr NotAssigned)
          | Some a \<Rightarrow>
              if asg_status a = Done then (w, Inr AlreadyRecorded)
              else
                let w1 = mark_assignment_done w sid username (Some tg_user_id) (clock e);
                    all_assignments = get_assignments_for_submission w1 sid;
                    active = filter (\<lambda>a. asg_status a = Confirmed \<or> asg_status a = Done)
                               all_assignments;
                    done_list = filter (\<lambda>a. asg_status a = Done) active
                in if active \<noteq> [] \<and> length done_list \<ge> length active
                   then (case transition_to_accepted cfg e w1 sid done_list of
                           (w2, Inl err) \<Rightarrow> (w2, Inl err)
                         | (w2, Inr _) \<Rightarrow> (w2, Inr ReviewMarkedDone))
                   else
                     let still_pending =
                           map reviewer_tg_username
                             (filter (\<lambda>a. asg_status a = Confirmed \<and>
                                           reviewer_tg_username a \<noteq> username) active)
                     in if still_pending \<noteq> []
                        then (if chat_ok e
                              then (post w1 (MsgWaiting sid username still_pending),
                                    Inr ReviewMarkedDone)
                              else (w1, Inl ChatError))
                        else (w1, Inr ReviewMarkedDone)))"

text \<open>
  \<open>sub["title"].split()[0]\<close> in \<open>handle_rejection_proposal\<close> has no first word when
  the title is non-empty and all whitespace.
\<close>

definition handle_rejection_proposal ::
  "config \<Rightarrow> env \<Rightarrow> world \<Rightarrow> nat \<Rightarrow> string \<Rightarrow> string \<Rightarrow> world \<times> (py_error + reply)" where
  "handle_rejection_proposal cfg e w sid by_user why =
     (let sub = get_submission_by_id w sid
      in case insert_rejection w sid by_user why None (clock e) of
           Inl err \<Rightarrow> (w, Inl err)
         | Inr (w1, rejection_id) \<Rightarrow>
             (case sub of
                None \<Rightarrow> (w1, Inl TypeError)
              | Some s \<Rightarrow>
                  if ed_title (sub_email s) \<noteq> [] \<and> py_strip (ed_title (sub_email s)) = []
                  then (w1, Inl IndexError)
                  else if chat_ok e
                  then (set_rejection_proposal_message_id (post w1 (MsgProposal sid by_user why))
                          rejection_id (posted_message_id e),
                        Inr ReturnNone)
                  else (w1, Inl ChatError)))"

text \<open>
  \<open>handle_second\<close> edits the proposal's message; the last field of \<open>MsgSecondEdit\<close>
  says whether the edit carries the confirm button.
\<close>

definition handle_second ::
  "config \<Rightarrow> env \<Rightarrow> world \<Rightarrow> nat \<Rightarrow> string \<Rightarrow> world \<times> (py_error + reply)" where
  "handle_second cfg e w sid username =
     (case get_active_rejection w sid of
        None \<Rightarrow> (w, Inr NoActiveProposal)
      | Some rejection \<Rightarrow>
          if username = proposed_by rejection then (w, Inr SelfSecond)
          else
            let (w1, secs) = add_second_to_rejection w (rej_id rejection) username;
                count = length secs
            in (case get_submission_by_id w1 sid of
                 None \<Rightarrow> (w1, Inl TypeError)
               | Some sub \<Rightarrow>
                   if count \<ge> 2
                   then (if chat_ok e
                         then (post w1 (MsgSecondEdit (tg_proposal_message_id rejection)
                                          secs True),
                               Inr SecondRecordedWaiting)
                         else (w1, Inl ChatError))
                   else (if chat_ok e
                         then (post w1 (MsgSecondEdit (tg_proposal_message_id rejection)
                                          secs False),
                               Inr (SecondRecorded count))
                         else (w1, Inl ChatError))))"

text \<open>
  \<open>if operator_user_id and operator_tg_id != operator_user_id\<close>: an absent or zero
  operator id switches the check off.
\<close>

definition handle_confirm_rejection ::
  "config \<Rightarrow> env \<Rightarrow> world \<Rightarrow> nat \<Rightarrow> int \<Rightarrow> world \<times> (py_error + reply)" where
  "handle_confirm_rejection cfg e w sid operator_tg_id =
     (if (case operator_user_id cfg of
            None \<Rightarrow> False
          | Some oid \<Rightarrow> oid \<noteq> 0 \<and> operator_tg_id \<noteq> oid)
      then (w, Inr OnlyOperator)
      else
        let rejection = get_active_rejection w sid;
            sub = get_submission_by_id w sid;
            w1 = set_submission_rejected w sid (clock e)
        in case sub of
             None \<Rightarrow> (w1, Inl TypeError)
           | Some _ \<Rightarrow>
               if chat_ok e
               then let w2 = post w1 (MsgRejected sid);
                        why = (case rejection of None \<Rightarrow> [] | Some r \<Rightarrow> reason r)
                    in ((if mail_ok e then send_mail w2 (RejectionEmail sid why) else w2),
                        Inr RejectionConfirmed)
               else (w1, Inl ChatError))"

definition handle_override ::
  "config \<Rightarrow> env \<Rightarrow> world \<Rightarrow> nat \<Rightarrow> string list \<Rightarrow> world \<times> (py_error + reply)" where
  "handle_override cfg e w sid new_reviewers =
     (case get_submission_by_id w sid of
        None \<Rightarrow> (w, Inr SubmissionNotFound)
      | Some sub \<Rightarrow>
          let w1 = clear_pending_assignments w sid
          in (case insert_each w1 sid new_reviewers (clock e) of
                (w2, Some err) \<Rightarrow> (w2, Inl err)
              | (w2, None) \<Rightarrow>
                  let w3 = update_submission_status w2 sid Assigning
                  in if chat_ok e
                     then (post w3 (MsgOverride sid new_reviewers), Inr OverrideApplied)
                     else (w3, Inl ChatError)))"

definition send_followup ::
  "config \<Rightarrow> env \<Rightarrow> world \<Rightarrow> followup \<Rightarrow> world \<times> (py_error + reply)" where
  "send_followup cfg e w followup_row =
     (let sid = fu_submission_id followup_row
      in case get_submission_by_id w sid of
           None \<Rightarrow> (w, Inr ReturnNone)
         | Some sub \<Rightarrow>
             if sub_status sub \<noteq> UnderReview then (w, Inr ReturnNone)
             else
               let active = filter (\<lambda>a. asg_status a = Confirmed \<or> asg_status a = Done)
                              (get_assignments_for_submission w sid)
               in if active = [] then (w, Inr ReturnNone)
                  else if \<not> chat_ok e then (w, Inl ChatError)
                  else
                    let w1 = post w (MsgFollowup sid (map reviewer_tg_username active));
                        w2 = mark_followup_sent w1 (fu_id followup_row) (clock e);
                        next_followup = clock e + followup_interval_days cfg * 86400
                    in (case insert_followup w2 sid next_followup of
                          Inl err \<Rightarrow> (w2, Inl err)
                        | Inr w3 \<Rightarrow> (w3, Inr ReturnNone)))"

section \<open>scheduler.py: the follow-up check\<close>

text \<open>
  \<open>_check_followups\<close> reads the due rows once and hands each to \<open>send_followup\<close>; an
  exception of one call is logged and the loop goes on with what that call committed.
\<close>

fun send_each :: "config \<Rightarrow> env \<Rightarrow> world \<Rightarrow> followup list \<Rightarrow> world" where
  "send_each cfg e w [] = w"
| "send_each cfg e w (f # fs) = send_each cfg e (fst (send_followup cfg e w f)) fs"

definition check_followups :: "config \<Rightarrow> env \<Rightarrow> world \<Rightarrow> world" where
  "check_followups cfg e w = send_each cfg e w (get_pending_followups w (clock e))"

section \<open>The events the bot receives\<close>

text \<open>
  One constructor per entry point of \<open>state.py\<close> that the chat handlers and the
  scheduler call, with the arguments they pass; the reviewer-picker's answer travels
  with the event that asks for it.
\<close>

datatype event =
    Admit email_data picker_result
  | Accept nat string int
  | Decline nat string int picker_result
  | MarkDone nat string int
  | Propose nat string string
  | Second nat string
  | Confirm nat int
  | ApplyOverride nat "string list"
  | CheckFollowups

fun step :: "config \<Rightarrow> world \<Rightarrow> env \<times> event \<Rightarrow> world" where
  "step cfg w (e, Admit ed orc) = fst (handle_new_submission cfg e w ed orc)"
| "step cfg w (e, Accept sid u tg) = fst (handle_reviewer_accept cfg e w sid u tg)"
| "step cfg w (e, Decline sid u tg orc) = fst (handle_reviewer_decline cfg e w sid u tg orc)"
| "step cfg w (e, MarkDone sid u tg) = fst (handle_reviewer_done cfg e w sid u tg)"
| "step cfg w (e, Propose sid u why) = fst (handle_rejection_proposal cfg e w sid u why)"
| "step cfg w (e, Second sid u) = fst (handle_second cfg e w sid u)"
| "step cfg w (e, Confirm sid tg) = fst (handle_confirm_rejection cfg e w sid tg)"
| "step cfg w (e, ApplyOverride sid rs) = fst (handle_override cfg e w sid rs)"
| "step cfg w (e, CheckFollowups) = check_followups cfg e w"

definition run :: "config \<Rightarrow> world \<Rightarrow> (env \<times> event) list \<Rightarrow> world" where
  "run cfg w evs = foldl (step cfg) w evs"

fun is_override :: "event \<Rightarrow> bool" where
  "is_override (ApplyOverride sid rs) = True"
| "is_override ev = False"

fun is_mark_done :: "event \<Rightarrow> bool" where
  "is_mark_done (MarkDone sid u tg) = True"
| "is_mark_done ev = False"

definition status_of :: "world \<Rightarrow> nat \<Rightarrow> sub_status option" where
  "status_of w sid = map_option sub_status (get_submission_by_id w sid)"

definition unsent_followups :: "world \<Rightarrow> nat \<Rightarrow> followup list" where
  "unsent_followups w sid =
     filter (\<lambda>f. fu_submission_id f = sid \<and> sent_at f = None) (followups w)"

section \<open>llm.py: reading the reviewer-picker's answer\<close>

text \<open>
  Lines 206 to 211 of \<open>_parse_json_response\<close>. The text starts with the fence when the
  split is taken, so the second piece exists; the model keeps the index check all
  the same.
\<close>

definition strip_fences :: "string \<Rightarrow> py_error + string" where
  "strip_fences raw0 =
     (let raw = py_strip raw0
      in ebind (if startswith raw ''```''
                then ebind (item (py_split raw ''```'') 1) (\<lambda>inner.
                       Inr (if startswith inner ''json'' then drop 4 inner else inner))
                else Inr raw) (\<lambda>raw.
         Inr (py_strip (py_rstrip_chars (CHR ''`'') (py_strip raw)))))"

text \<open>
  \<open>json.loads\<close> is a parameter: \<open>None\<close> is its \<open>JSONDecodeError\<close>. The first component
  of the result lists the texts handed to it, one entry per call, so that the number
  of parse attempts can be read off; the raised \<open>ValueError\<close> is the invalid-response
  error.
\<close>

definition parse_json_response ::
  "(string \<Rightarrow> 'j option) \<Rightarrow> string \<Rightarrow> string list \<times> (py_error + 'j)" where
  "parse_json_response loads raw =
     (case strip_fences raw of
        Inl err \<Rightarrow> ([], Inl err)
      | Inr text \<Rightarrow>
          ([text], case loads text of None \<Rightarrow> Inl ValueError | Some j \<Rightarrow> Inr j))"

text \<open>A stand-in for \<open>json.loads\<close> in examples: it accepts one text only.\<close>

definition accept_only :: "string \<Rightarrow> string \<Rightarrow> unit option" where
  "accept_only good s = (if s = good then Some () else None)"

definition gmail_ids :: "world \<Rightarrow> string list" where
  "gmail_ids w = map (\<lambda>s. ed_gmail_message_id (sub_email s)) (submissions w)"

text \<open>Concrete inputs for the examples below.\<close>

definition demo_cfg :: config where
  "demo_cfg = \<lparr>operator_user_id = None, followup_interval_days = 3, publish_time = None\<rparr>"

definition demo_friday :: datetime where
  "demo_friday = \<lparr>dt_ordinal = 738890, dt_hour = 17, dt_minute = 3, dt_second = 5,
                   dt_microsecond = 7\<rparr>"

definition demo_env :: "int \<Rightarrow> env" where
  "demo_env t = \<lparr>clock = t, local_now = demo_friday, chat_ok = True, mail_ok = True,
                  posted_message_id = 100\<rparr>"

definition demo_mail :: email_data where
  "demo_mail = \<lparr>ed_gmail_message_id = ''m1'', ed_gmail_thread_id = Some ''t1'',
                 ed_title = ''Rollups'', ed_author_name = ''Ann'',
                 ed_author_email = ''ann@example.org'', ed_medium_url = None,
                 ed_email_subject = ''Rollups'', ed_email_body = ''Hello''\<rparr>"

definition pick_one :: "string \<Rightarrow> picker_result" where
  "pick_one a = PickerReply \<lparr>reviewer1 = Some a, reviewer2 = Some []\<rparr>"

definition pick_two :: "string \<Rightarrow> string \<Rightarrow> picker_result" where
  "pick_two a b = PickerReply \<lparr>reviewer1 = Some a, reviewer2 = Some b\<rparr>"

text \<open>A submission admitted with the single reviewer \<open>alice\<close>; its id is 1.\<close>

definition demo_assigning :: world where
  "demo_assigning = run demo_cfg init_db [(demo_env 10, Admit demo_mail (pick_one ''alice''))]"

text \<open>The same submission after \<open>alice\<close> has declined and no replacement was found.\<close>

definition demo_declined :: world where
  "demo_declined =
     run demo_cfg init_db
       [(demo_env 10, Admit demo_mail (pick_one ''alice'')),
        (demo_env 20, Decline 1 ''alice'' 7 PickerFailure)]"

text \<open>The same submission after \<open>alice\<close> has accepted.\<close>

definition demo_under_review :: world where
  "demo_under_review =
     run demo_cfg init_db
       [(demo_env 10, Admit demo_mail (pick_one ''alice'')),
        (demo_env 20, Accept 1 ''alice'' 7)]"

text \<open>
  A proposal that reached two seconders, so that its message carries the confirm
  button, and was then superseded by a new proposal that nobody has seconded.
\<close>

definition demo_superseded :: world where
  "demo_superseded =
     run demo_cfg init_db
       [(demo_env 10, Admit demo_mail (pick_one ''alice'')),
        (demo_env 30, Propose 1 ''bob'' ''off topic''),
        (demo_env 40, Second 1 ''carol''),
        (demo_env 50, Second 1 ''dave''),
        (demo_env 60, Propose 1 ''erin'' ''too long'')]"

text \<open>
  Submission 1 rejected by consensus while \<open>alice\<close>'s assignment is still pending, and
  a submission with two reviewers accepted on \<open>alice\<close>'s done-mark while \<open>bob\<close>'s
  assignment is still pending.
\<close>

definition demo_rejected :: world where
  "demo_rejected =
     run demo_cfg init_db
       [(demo_env 10, Admit demo_mail (pick_one ''alice'')),
        (demo_env 30, Propose 1 ''bob'' ''off topic''),
        (demo_env 40, Second 1 ''carol''),
        (demo_env 50, Second 1 ''dave''),
        (demo_env 60, Confirm 1 99)]"

definition demo_accepted_early :: world where
  "demo_accepted_early =
     run demo_cfg init_db
       [(demo_env 10, Admit demo_mail (pick_two ''alice'' ''bob'')),
        (demo_env 20, MarkDone 1 ''alice'' 7)]"

text \<open>Notions used to state what a run of events preserves.\<close>

definition sub_ids :: "world \<Rightarrow> nat list" where
  "sub_ids w = map sub_id (submissions w)"

definition pairing_rows :: "world \<Rightarrow> nat \<Rightarrow> string \<Rightarrow> assignment list" where
  "pairing_rows w sid u =
     filter (\<lambda>a. asg_submission_id a = sid \<and> reviewer_tg_username a = u) (assignments w)"

definition new_followup :: "world \<Rightarrow> nat \<Rightarrow> int \<Rightarrow> followup" where
  "new_followup w sid at =
     \<lparr>fu_id = next_rowid (map fu_id (followups w)), fu_submission_id = sid,
      scheduled_at = at, sent_at = None\<rparr>"

definition no_pending_rows :: "world \<Rightarrow> nat \<Rightarrow> bool" where
  "no_pending_rows w sid =
     (\<forall>a\<in>set (assignments w). asg_submission_id a = sid \<longrightarrow> asg_status a \<noteq> Pending)"

section \<open>The publish date\<close>

lemma skip_weekend_weekday:
  "weekday c < 5 \<Longrightarrow> skip_weekend c = Inr c"
  by (simp add: skip_weekend.simps[of c])

lemma skip_weekend_step:
  "weekday c \<ge> 5 \<Longrightarrow> 0 < n \<Longrightarrow> n \<le> MAXORDINAL \<Longrightarrow> n = dt_ordinal c + 1 \<Longrightarrow>
   skip_weekend c = skip_weekend (c\<lparr>dt_ordinal := n\<rparr>)"
  by (simp add: skip_weekend.simps[of c] add_days_def Let_def)

lemma skip_weekend_props:
  "skip_weekend c = Inr d \<Longrightarrow>
     dt_ordinal c \<le> dt_ordinal d \<and> weekday d < 5 \<and>
     (\<forall>k. dt_ordinal c \<le> k \<and> k < dt_ordinal d \<longrightarrow> (k + 6) mod 7 \<ge> 5) \<and>
     d = c\<lparr>dt_ordinal := dt_ordinal d\<rparr>"
proof (induction c rule: skip_weekend.induct)
  case (1 c)
  show ?case
  proof (cases "weekday c \<ge> 5")
    case False
    with "1.prems" show ?thesis by (simp add: skip_weekend.simps[of c])
  next
    case True
    with "1.prems" obtain n where n: "add_days c 1 = Inr n" and sn: "skip_weekend n = Inr d"
      by (auto simp: skip_weekend.simps[of c] split: sum.splits)
    from n have no: "n = c\<lparr>dt_ordinal := dt_ordinal c + 1\<rparr>"
      by (auto simp: add_days_def Let_def split: if_splits)
    from "1.IH"[OF True n sn] have ih:
      "dt_ordinal n \<le> dt_ordinal d" "weekday d < 5"
      "\<forall>k. dt_ordinal n \<le> k \<and> k < dt_ordinal d \<longrightarrow> (k + 6) mod 7 \<ge> 5"
      "d = n\<lparr>dt_ordinal := dt_ordinal d\<rparr>" by auto
    have "\<forall>k. dt_ordinal c \<le> k \<and> k < dt_ordinal d \<longrightarrow> (k + 6) mod 7 \<ge> 5"
    proof (intro allI impI)
      fix k assume k: "dt_ordinal c \<le> k \<and> k < dt_ordinal d"
      show "(k + 6) mod 7 \<ge> 5"
      proof (cases "k = dt_ordinal c")
        case True with \<open>weekday c \<ge> 5\<close> show ?thesis by (simp add: weekday_def)
      next
        case False with k no ih(3) show ?thesis by simp
      qed
    qed
    with ih no show ?thesis by simp
  qed
qed

lemma friday_skip:
  assumes "weekday now = 4" "0 < dt_ordinal now" "dt_ordinal now + 3 \<le> MAXORDINAL"
  shows "skip_weekend (now\<lparr>dt_ordinal := dt_ordinal now + 1\<rparr>) =
         Inr (now\<lparr>dt_ordinal := dt_ordinal now + 3\<rparr>)"
proof -
  let ?a = "now\<lparr>dt_ordinal := dt_ordinal now + 1\<rparr>"
  let ?b = "now\<lparr>dt_ordinal := dt_ordinal now + 2\<rparr>"
  let ?c = "now\<lparr>dt_ordinal := dt_ordinal now + 3\<rparr>"
  from assms(1) have wa: "weekday ?a = 5" and wb: "weekday ?b = 6" and wc: "weekday ?c = 0"
    unfolding weekday_def by (simp_all, presburger+)
  have "skip_weekend ?a = skip_weekend ?b"
    using skip_weekend_step[of ?a "dt_ordinal now + 2"] wa assms by simp
  also have "\<dots> = skip_weekend ?c"
    using skip_weekend_step[of ?b "dt_ordinal ?b + 1"] wb assms by (simp add: add.commute)
  also have "\<dots> = Inr ?c" using skip_weekend_weekday[of ?c] wc by simp
  finally show ?thesis .
qed

lemma skip_weekend_total:
  assumes "0 < dt_ordinal c" "dt_ordinal c + 2 \<le> MAXORDINAL"
  shows "\<exists>d. skip_weekend c = Inr d"
proof -
  let ?b = "c\<lparr>dt_ordinal := dt_ordinal c + 1\<rparr>"
  let ?c = "c\<lparr>dt_ordinal := dt_ordinal c + 2\<rparr>"
  consider "weekday c < 5" | "weekday c = 5" | "weekday c = 6"
    unfolding weekday_def by (smt (verit) pos_mod_bound)
  then show ?thesis
  proof cases
    case 1 then show ?thesis by (simp add: skip_weekend_weekday)
  next
    case 2
    then have wb: "weekday ?b = 6" and wc: "weekday ?c = 0"
      unfolding weekday_def by (simp_all, presburger+)
    have "skip_weekend c = skip_weekend ?b"
      using skip_weekend_step[of c "dt_ordinal c + 1"] 2 assms by simp
    also have "\<dots> = skip_weekend ?c"
      using skip_weekend_step[of ?b "dt_ordinal ?b + 1"] wb assms by (simp add: add.commute)
    also have "\<dots> = Inr ?c" using skip_weekend_weekday[of ?c] wc by simp
    finally show ?thesis by blast
  next
    case 3
    then have wb: "weekday ?b = 0"
      unfolding weekday_def by (simp, presburger)
    have "skip_weekend c = skip_weekend ?b"
      using skip_weekend_step[of c "dt_ordinal c + 1"] 3 assms by simp
    also have "\<dots> = Inr ?b" using skip_weekend_weekday[of ?b] wb by simp
    finally show ?thesis by blast
  qed
qed

lemma parse_0930:
  "item (py_split ''09:30'' '':'') 0 = Inr ''09''"
  "item (py_split ''09:30'' '':'') 1 = Inr ''30''"
  "int_or_raise ''09'' = Inr 9" "int_or_raise ''30'' = Inr 30"
  by (simp_all add: item_def py_split_def int_or_raise_def py_int_def py_strip_def py_lstrip_def
      py_rstrip_def py_isspace_def py_unsigned_def is_digit_def digit_val_def Let_def)

lemma compute_publish_date_friday:
  assumes "weekday now = 4" "0 < dt_ordinal now" "dt_ordinal now + 3 \<le> MAXORDINAL"
  shows "compute_publish_date now ''09:30'' =
         Inr (now\<lparr>dt_ordinal := dt_ordinal now + 3, dt_hour := 9, dt_minute := 30,
                   dt_second := 0, dt_microsecond := 0\<rparr>)"
proof -
  have a: "add_days now 1 = Inr (now\<lparr>dt_ordinal := dt_ordinal now + 1\<rparr>)"
    using assms by (simp add: add_days_def Let_def)
  show ?thesis
    unfolding compute_publish_date_def
    by (simp add: a friday_skip[OF assms] parse_0930 ebind_def replace_time_def del: One_nat_def)
qed

lemma compute_publish_date_result:
  assumes "compute_publish_date now t = Inr d"
  shows "dt_ordinal now < dt_ordinal d \<and> weekday d < 5 \<and>
         (\<forall>k. dt_ordinal now < k \<and> k < dt_ordinal d \<longrightarrow> weekday (now\<lparr>dt_ordinal := k\<rparr>) \<ge> 5) \<and>
         item (map int_or_raise (py_split t '':'')) 0 = Inr (Inr (dt_hour d)) \<and>
         item (map int_or_raise (py_split t '':'')) 1 = Inr (Inr (dt_minute d)) \<and>
         dt_second d = 0 \<and> dt_microsecond d = 0"
proof -
  from assms obtain c1 c2 hs h ms m where
    c1: "add_days now 1 = Inr c1" and c2: "skip_weekend c1 = Inr c2" and
    hs: "item (py_split t '':'') 0 = Inr hs" and h: "int_or_raise hs = Inr h" and
    ms: "item (py_split t '':'') 1 = Inr ms" and m: "int_or_raise ms = Inr m" and
    r: "replace_time c2 h m = Inr d"
    unfolding compute_publish_date_def ebind_def by (auto split: sum.splits)
  from c1 have c1o: "dt_ordinal c1 = dt_ordinal now + 1"
    by (auto simp: add_days_def Let_def split: if_splits)
  from r have d: "d = c2\<lparr>dt_hour := h, dt_minute := m, dt_second := 0, dt_microsecond := 0\<rparr>"
    by (auto simp: replace_time_def split: if_splits)
  note p = skip_weekend_props[OF c2]
  have wd: "weekday d = weekday c2" using d by (simp add: weekday_def)
  have od: "dt_ordinal d = dt_ordinal c2" using d by simp
  have gap: "\<forall>k. dt_ordinal now < k \<and> k < dt_ordinal d \<longrightarrow> weekday (now\<lparr>dt_ordinal := k\<rparr>) \<ge> 5"
    using p c1o od by (simp add: weekday_def)
  have hh: "item (map int_or_raise (py_split t '':'')) 0 = Inr (Inr (dt_hour d))"
    using hs h d by (auto simp: item_def split: if_splits)
  have mm: "item (map int_or_raise (py_split t '':'')) 1 = Inr (Inr (dt_minute d))"
    using ms m d by (auto simp: item_def split: if_splits)
  show ?thesis using p c1o wd od gap hh mm d by simp
qed

lemma compute_publish_date_total:
  assumes "0 < dt_ordinal now" "dt_ordinal now + 3 \<le> MAXORDINAL"
    and "item (map int_or_raise (py_split t '':'')) 0 = Inr (Inr h)"
    and "item (map int_or_raise (py_split t '':'')) 1 = Inr (Inr m)"
    and "0 \<le> h" "h \<le> 23" "0 \<le> m" "m \<le> 59"
  shows "\<exists>d. compute_publish_date now t = Inr d"
proof -
  let ?c1 = "now\<lparr>dt_ordinal := dt_ordinal now + 1\<rparr>"
  have a: "add_days now 1 = Inr ?c1" using assms by (simp add: add_days_def Let_def)
  obtain c2 where c2: "skip_weekend ?c1 = Inr c2"
    using skip_weekend_total[of ?c1] assms by auto
  from assms(3) have h: "item (py_split t '':'') 0 = Inr (py_split t '':'' ! 0)"
      "int_or_raise (py_split t '':'' ! 0) = Inr h"
    by (auto simp: item_def split: if_splits)
  from assms(4) have m: "item (py_split t '':'') 1 = Inr (py_split t '':'' ! 1)"
      "int_or_raise (py_split t '':'' ! 1) = Inr m"
    by (auto simp: item_def split: if_splits)
  show ?thesis
    unfolding compute_publish_date_def using assms(5-8)
    by (simp add: a c2 h m ebind_def replace_time_def del: One_nat_def)
qed

text \<open>
  C8. \<open>compute_publish_date\<close> returns the first day after today that is not a Saturday
  or Sunday (every day strictly between today and the result is a weekend day, and
  the result itself is a weekday), at the configured hour and minute with seconds and
  microseconds zero; on a Friday with the default \<open>09:30\<close> it returns the following
  Monday at 09:30; and it does return whenever the configured time is a valid
  \<open>hour:minute\<close> and three more days fit the calendar.
\<close>

theorem compute_publish_date_next_weekday:
  "(compute_publish_date now t = Inr d \<longrightarrow>
      dt_ordinal now < dt_ordinal d \<and> weekday d < 5 \<and>
      (\<forall>k. dt_ordinal now < k \<and> k < dt_ordinal d \<longrightarrow> weekday (now\<lparr>dt_ordinal := k\<rparr>) \<ge> 5) \<and>
      item (map int_or_raise (py_split t '':'')) 0 = Inr (Inr (dt_hour d)) \<and>
      item (map int_or_raise (py_split t '':'')) 1 = Inr (Inr (dt_minute d)) \<and>
      dt_second d = 0 \<and> dt_microsecond d = 0) \<and>
   (weekday now = 4 \<and> 0 < dt_ordinal now \<and> dt_ordinal now + 3 \<le> MAXORDINAL \<longrightarrow>
      compute_publish_date now ''09:30'' =
        Inr (now\<lparr>dt_ordinal := dt_ordinal now + 3, dt_hour := 9, dt_minute := 30,
                  dt_second := 0, dt_microsecond := 0\<rparr>)) \<and>
   (0 < dt_ordinal now \<and> dt_ordinal now + 3 \<le> MAXORDINAL \<and>
    item (map int_or_raise (py_split t '':'')) 0 = Inr (Inr h) \<and>
    item (map int_or_raise (py_split t '':'')) 1 = Inr (Inr m) \<and>
    0 \<le> h \<and> h \<le> 23 \<and> 0 \<le> m \<and> m \<le> 59 \<longrightarrow>
      (\<exists>d'. compute_publish_date now t = Inr d'))"
  using compute_publish_date_result[of now t d] compute_publish_date_friday[of now]
    compute_publish_date_total[of now t h m]
  by blast

text \<open>Friday 2024-01-05 (ordinal 738890), 17:03: the slot is Monday 2024-01-08, 09:30.\<close>

theorem compute_publish_date_next_weekday_witness:
  "weekday \<lparr>dt_ordinal = 738890, dt_hour = 17, dt_minute = 3, dt_second = 5,
             dt_microsecond = 7\<rparr> = 4 \<and>
   compute_publish_date
     \<lparr>dt_ordinal = 738890, dt_hour = 17, dt_minute = 3, dt_second = 5, dt_microsecond = 7\<rparr>
     ''09:30'' =
     Inr \<lparr>dt_ordinal = 738893, dt_hour = 9, dt_minute = 30, dt_second = 0,
          dt_microsecond = 0\<rparr> \<and>
   weekday \<lparr>dt_ordinal = 738893, dt_hour = 9, dt_minute = 30, dt_second = 0,
             dt_microsecond = 0\<rparr> < 5 \<and>
   weekday \<lparr>dt_ordinal = 738891, dt_hour = 17, dt_minute = 3, dt_second = 5,
             dt_microsecond = 7\<rparr> \<ge> 5"
  using compute_publish_date_next_weekday
    [of "\<lparr>dt_ordinal = 738890, dt_hour = 17, dt_minute = 3, dt_second = 5,
          dt_microsecond = 7\<rparr>" "''09:30''"
        "\<lparr>dt_ordinal = 738893, dt_hour = 9, dt_minute = 30, dt_second = 0,
          dt_microsecond = 0\<rparr>" 9 30]
  by (simp add: weekday_def MAXORDINAL_def parse_0930 del: One_nat_def)

section \<open>Reading the reviewer-picker's answer\<close>

lemma py_split_from_fence:
  "CHR ''`'' \<notin> set pre \<Longrightarrow>
   py_split_from ''```'' acc (pre @ ''```'' @ rest) =
     (rev acc @ pre) # py_split_from ''```'' [] rest"
  by (induction pre arbitrary: acc) auto

lemma py_split_from_plain:
  "CHR ''`'' \<notin> set pre \<Longrightarrow> py_split_from ''```'' acc pre = [rev acc @ pre]"
  by (induction pre arbitrary: acc) auto

lemma py_split_from_length: "1 \<le> length (py_split_from sep acc s)"
  by (induction sep acc s rule: py_split_from.induct) auto

lemma py_split_fenced_length:
  assumes "startswith s ''```''"
  shows "2 \<le> length (py_split s ''```'')"
proof -
  from assms have "s = ''```'' @ drop 3 s"
    unfolding startswith_def by (metis append_take_drop_id length_Cons list.size(3) numeral_3_eq_3)
  then obtain rest where s: "s = ''```'' @ rest" by blast
  have "py_split s ''```'' = [] # py_split_from ''```'' [] rest"
    unfolding py_split_def s using py_split_from_fence[of "[]" "[]" rest] by simp
  then show ?thesis using py_split_from_length[of "''```''" "[]" rest] by simp
qed

lemma strip_fences_returns: "\<exists>text. strip_fences raw = Inr text"
proof (cases "startswith (py_strip raw) ''```''")
  case True
  from py_split_fenced_length[OF True]
  have "item (py_split (py_strip raw) ''```'') 1 = Inr (py_split (py_strip raw) ''```'' ! 1)"
    by (simp add: item_def)
  with True show ?thesis
    unfolding strip_fences_def Let_def ebind_def by (simp del: One_nat_def)
next
  case False
  then show ?thesis unfolding strip_fences_def Let_def ebind_def by simp
qed

lemma rstrip_keeps_head:
  "\<not> P x \<Longrightarrow> rev (dropWhile P (rev (x # xs))) = x # rev (dropWhile P (rev xs))"
  by (simp add: dropWhile_append)

lemma py_strip_idem: "py_strip (py_strip s) = py_strip s"
proof (cases "dropWhile py_isspace s")
  case Nil
  show ?thesis by (simp add: py_strip_def py_lstrip_def py_rstrip_def Nil)
next
  case (Cons x xs)
  then have nx: "\<not> py_isspace x" by (metis hd_dropWhile list.distinct(1) list.sel(1))
  have "py_strip s = x # rev (dropWhile py_isspace (rev xs))"
    using Cons rstrip_keeps_head[of py_isspace x xs] nx by (simp add: py_strip_def py_lstrip_def py_rstrip_def)
  then show ?thesis
    using nx rstrip_keeps_head[of py_isspace x "rev (dropWhile py_isspace (rev xs))"]
    by (simp add: py_strip_def py_lstrip_def py_rstrip_def)
qed

lemma set_py_strip: "set (py_strip s) \<subseteq> set s"
proof -
  have "set (py_strip s) \<subseteq> set (py_lstrip s)"
    unfolding py_strip_def py_rstrip_def using set_dropWhileD[of _ py_isspace "rev (py_lstrip s)"]
    by auto
  also have "\<dots> \<subseteq> set s" unfolding py_lstrip_def using set_dropWhileD by fastforce
  finally show ?thesis .
qed

lemma py_rstrip_chars_absent: "c \<notin> set s \<Longrightarrow> py_rstrip_chars c s = s"
proof -
  assume a: "c \<notin> set s"
  have "dropWhile (\<lambda>x. x = c) (rev s) = rev s"
  proof (cases "rev s")
    case Nil then show ?thesis by simp
  next
    case (Cons y ys)
    then have "y \<in> set s" by (metis list.set_intros(1) set_rev)
    with a have "y \<noteq> c" by auto
    with Cons show ?thesis by simp
  qed
  then show ?thesis by (simp add: py_rstrip_chars_def)
qed

lemma strip_fences_body:
  assumes "CHR ''`'' \<notin> set body"
  shows "py_strip (py_rstrip_chars (CHR ''`'') (py_strip body)) = py_strip body"
proof -
  from assms set_py_strip[of body] have "CHR ''`'' \<notin> set (py_strip body)" by auto
  then show ?thesis by (simp add: py_rstrip_chars_absent py_strip_idem)
qed

lemma strip_fences_json_fence:
  assumes "py_strip raw = ''```json'' @ body @ ''```''" "CHR ''`'' \<notin> set body"
  shows "strip_fences raw = Inr (py_strip body)"
proof -
  have sp: "py_split (py_strip raw) ''```'' = [[], ''json'' @ body, []]"
    unfolding py_split_def assms(1)
    using py_split_from_fence[of "[]" "[]" "''json'' @ body @ ''```''"]
      py_split_from_fence[of "''json'' @ body" "[]" "[]"] assms(2)
    by simp
  show ?thesis
    unfolding strip_fences_def Let_def sp
    by (simp add: assms(1) startswith_def item_def ebind_def strip_fences_body[OF assms(2)])
qed

lemma strip_fences_bare_fence:
  assumes "py_strip raw = ''```'' @ body @ ''```''" "CHR ''`'' \<notin> set body"
    "\<not> startswith body ''json''"
  shows "strip_fences raw = Inr (py_strip body)"
proof -
  have sp: "py_split (py_strip raw) ''```'' = [[], body, []]"
    unfolding py_split_def assms(1)
    using py_split_from_fence[of "[]" "[]" "body @ ''```''"]
      py_split_from_fence[of "body" "[]" "[]"] assms(2)
    by simp
  show ?thesis
    unfolding strip_fences_def Let_def sp using assms(3)
    by (simp add: assms(1) startswith_def item_def ebind_def strip_fences_body[OF assms(2)])
qed

text \<open>
  C9, as the source has it. The answer is stripped of its code fence and handed to the
  parser exactly once; the call fails with the invalid-response error exactly when
  that one parse fails, and there is no second attempt. The stripping takes the text
  between the opening fence, with or without its \<open>json\<close> tag, and the closing
  fence, and trims it.
\<close>

theorem parse_json_response_one_attempt:
  "(\<exists>text. strip_fences raw = Inr text \<and>
      parse_json_response loads raw =
        ([text], case loads text of None \<Rightarrow> Inl ValueError | Some j \<Rightarrow> Inr j)) \<and>
   (py_strip raw = ''```json'' @ body @ ''```'' \<and> CHR ''`'' \<notin> set body \<longrightarrow>
      strip_fences raw = Inr (py_strip body)) \<and>
   (py_strip raw = ''```'' @ body @ ''```'' \<and> CHR ''`'' \<notin> set body \<and>
    \<not> startswith body ''json'' \<longrightarrow>
      strip_fences raw = Inr (py_strip body))"
proof -
  obtain t0 where t: "strip_fences raw = Inr t0" using strip_fences_returns by blast
  then have "parse_json_response loads raw =
        ([t0], case loads t0 of None \<Rightarrow> Inl ValueError | Some j \<Rightarrow> Inr j)"
    by (simp add: parse_json_response_def)
  with t show ?thesis
    using strip_fences_json_fence[of raw body] strip_fences_bare_fence[of raw body] by blast
qed

lemma strip_example:
  "py_strip '' ```json\<newline>{}\<newline>``` '' = ''```json\<newline>{}\<newline>```''"
  "py_strip ''\<newline>{}\<newline>'' = ''{}''"
  by (simp_all add: py_strip_def py_lstrip_def py_rstrip_def py_isspace_def)

theorem parse_json_response_one_attempt_witness:
  "py_strip '' ```json\<newline>{}\<newline>``` '' = ''```json'' @ ''\<newline>{}\<newline>'' @ ''```'' \<and>
   CHR ''`'' \<notin> set ''\<newline>{}\<newline>'' \<and>
   strip_fences '' ```json\<newline>{}\<newline>``` '' = Inr ''{}'' \<and>
   parse_json_response (accept_only ''{}'') '' ```json\<newline>{}\<newline>``` '' = ([''{}''], Inr ())"
  using parse_json_response_one_attempt
    [of "'' ```json\<newline>{}\<newline>``` ''" "accept_only ''{}''" "''\<newline>{}\<newline>''"]
  by (auto simp: strip_example accept_only_def)

text \<open>
  C9 as stated fails: on the answer \<open>oops\<close>, which the parser refuses, the error is
  raised after one parse attempt, not two.
\<close>

theorem parse_json_response_no_second_attempt:
  "fst (parse_json_response (accept_only ''{}'') ''oops'') = [''oops''] \<and>
   snd (parse_json_response (accept_only ''{}'') ''oops'') = Inl ValueError"
  by (simp add: parse_json_response_def strip_fences_def startswith_def ebind_def py_strip_def
      py_lstrip_def py_rstrip_def py_isspace_def py_rstrip_chars_def accept_only_def)

section \<open>Admission\<close>

lemma known_gmail_id:
  "(get_submission_by_gmail_id w g \<noteq> None) = (g \<in> set (gmail_ids w))"
  by (auto simp: get_submission_by_gmail_id_def gmail_ids_def find_None_iff)

lemma insert_assignment_submissions:
  "insert_assignment w sid u now = Inr w' \<Longrightarrow> submissions w' = submissions w"
  by (auto simp: insert_assignment_def Let_def split: if_splits)

lemma insert_each_submissions:
  "insert_each w sid rs now = (w', r) \<Longrightarrow> submissions w' = submissions w"
proof (induction rs arbitrary: w)
  case Nil
  then show ?case by simp
next
  case (Cons x rs)
  then show ?case
    by (auto split: sum.splits dest: insert_assignment_submissions)
qed

lemma gmail_ids_update_status [simp]:
  "gmail_ids (update_submission_status w sid st) = gmail_ids w"
  by (simp add: gmail_ids_def update_submission_status_def comp_def)

lemma gmail_ids_set_message_id [simp]:
  "gmail_ids (set_tg_status_message_id w sid mid) = gmail_ids w"
  by (simp add: gmail_ids_def set_tg_status_message_id_def comp_def)

lemma gmail_ids_post [simp]: "gmail_ids (post w m) = gmail_ids w"
  by (simp add: gmail_ids_def post_def)

lemma gmail_ids_insert_each:
  "insert_each w sid rs now = (w', r) \<Longrightarrow> gmail_ids w' = gmail_ids w"
  by (simp add: gmail_ids_def insert_each_submissions)

lemma insert_submission_gmail_ids:
  "insert_submission w ed now = Inr (w1, sid) \<Longrightarrow>
     gmail_ids w1 = gmail_ids w @ [ed_gmail_message_id ed]"
  by (auto simp: insert_submission_def gmail_ids_def Let_def split: if_splits)

lemma insert_submission_fresh:
  "get_submission_by_gmail_id w (ed_gmail_message_id ed) = None \<Longrightarrow>
     \<exists>w1 sid. insert_submission w ed now = Inr (w1, sid)"
  by (simp add: insert_submission_def Let_def)

lemma handle_new_submission_gmail_ids:
  "gmail_ids (fst (handle_new_submission cfg e w ed orc)) =
     (if ed_gmail_message_id ed \<in> set (gmail_ids w) then gmail_ids w
      else gmail_ids w @ [ed_gmail_message_id ed])"
proof (cases "get_submission_by_gmail_id w (ed_gmail_message_id ed) = None")
  case False
  then show ?thesis
    using known_gmail_id[of w "ed_gmail_message_id ed"]
    by (simp add: handle_new_submission_def)
next
  case True
  then obtain w1 sid where ins: "insert_submission w ed (clock e) = Inr (w1, sid)"
    using insert_submission_fresh by blast
  note g1 = insert_submission_gmail_ids[OF ins]
  have "gmail_ids (fst (handle_new_submission cfg e w ed orc)) = gmail_ids w1"
  proof (cases orc)
    case PickerFailure
    with True ins show ?thesis by (simp add: handle_new_submission_def)
  next
    case (PickerReply r)
    show ?thesis
    proof (cases "reviewer1 r")
      case None
      with True ins PickerReply show ?thesis by (simp add: handle_new_submission_def)
    next
      case (Some r1)
      obtain w2 res where ie:
        "insert_each w1 sid
           (map py_strip (filter (\<lambda>x. x \<noteq> [] \<and> py_strip x \<noteq> [])
              [r1, case reviewer2 r of None \<Rightarrow> [] | Some x \<Rightarrow> x])) (clock e) = (w2, res)"
        by (meson surj_pair)
      have g2: "gmail_ids w2 = gmail_ids w1" by (rule gmail_ids_insert_each[OF ie])
      show ?thesis
        using True ins PickerReply Some ie g2
        by (cases res) (simp_all add: handle_new_submission_def Let_def del: filter.simps)
    qed
  qed
  with g1 True known_gmail_id[of w "ed_gmail_message_id ed"] show ?thesis by simp
qed

lemma handle_new_submission_known:
  "get_submission_by_gmail_id w (ed_gmail_message_id ed) \<noteq> None \<Longrightarrow>
     handle_new_submission cfg e w ed orc = (w, Inr ReturnNone)"
  by (simp add: handle_new_submission_def)

text \<open>
  C3. A second \<open>handle_new_submission\<close> for the same external message id returns the
  state of the first call unchanged (store and outboxes alike) and raises nothing;
  when the id was new, the two calls together have added exactly one submission, the
  only one with that id.
\<close>

theorem handle_new_submission_idempotent:
  "ed_gmail_message_id ed2 = ed_gmail_message_id ed1 \<longrightarrow>
     handle_new_submission cfg e2 (fst (handle_new_submission cfg e1 w ed1 orc1)) ed2 orc2 =
       (fst (handle_new_submission cfg e1 w ed1 orc1), Inr ReturnNone) \<and>
     (get_submission_by_gmail_id w (ed_gmail_message_id ed1) = None \<longrightarrow>
        length (submissions
                  (fst (handle_new_submission cfg e2
                          (fst (handle_new_submission cfg e1 w ed1 orc1)) ed2 orc2))) =
          length (submissions w) + 1 \<and>
        length (filter (\<lambda>g. g = ed_gmail_message_id ed1)
                  (gmail_ids
                     (fst (handle_new_submission cfg e2
                             (fst (handle_new_submission cfg e1 w ed1 orc1)) ed2 orc2)))) = 1)"
proof (intro impI)
  assume same: "ed_gmail_message_id ed2 = ed_gmail_message_id ed1"
  let ?w1 = "fst (handle_new_submission cfg e1 w ed1 orc1)"
  have ids: "gmail_ids ?w1 =
     (if ed_gmail_message_id ed1 \<in> set (gmail_ids w) then gmail_ids w
      else gmail_ids w @ [ed_gmail_message_id ed1])"
    by (rule handle_new_submission_gmail_ids)
  then have "ed_gmail_message_id ed2 \<in> set (gmail_ids ?w1)" using same by auto
  then have known: "get_submission_by_gmail_id ?w1 (ed_gmail_message_id ed2) \<noteq> None"
    using known_gmail_id[of ?w1 "ed_gmail_message_id ed2"] by blast
  have second: "handle_new_submission cfg e2 ?w1 ed2 orc2 = (?w1, Inr ReturnNone)"
    by (rule handle_new_submission_known[OF known])
  have fresh: "get_submission_by_gmail_id w (ed_gmail_message_id ed1) = None \<longrightarrow>
        length (submissions ?w1) = length (submissions w) + 1 \<and>
        length (filter (\<lambda>g. g = ed_gmail_message_id ed1) (gmail_ids ?w1)) = 1"
  proof
    assume n: "get_submission_by_gmail_id w (ed_gmail_message_id ed1) = None"
    then have notin: "ed_gmail_message_id ed1 \<notin> set (gmail_ids w)"
      using known_gmail_id[of w "ed_gmail_message_id ed1"] by simp
    with ids have i: "gmail_ids ?w1 = gmail_ids w @ [ed_gmail_message_id ed1]" by simp
    have "length (gmail_ids ?w1) = length (gmail_ids w) + 1" by (simp add: i)
    then have l: "length (submissions ?w1) = length (submissions w) + 1"
      by (simp add: gmail_ids_def)
    have "filter (\<lambda>g. g = ed_gmail_message_id ed1) (gmail_ids w) = []"
      using notin by (auto simp: filter_empty_conv)
    with i l show "length (submissions ?w1) = length (submissions w) + 1 \<and>
        length (filter (\<lambda>g. g = ed_gmail_message_id ed1) (gmail_ids ?w1)) = 1" by simp
  qed
  show "handle_new_submission cfg e2 ?w1 ed2 orc2 = (?w1, Inr ReturnNone) \<and>
     (get_submission_by_gmail_id w (ed_gmail_message_id ed1) = None \<longrightarrow>
        length (submissions (fst (handle_new_submission cfg e2 ?w1 ed2 orc2))) =
          length (submissions w) + 1 \<and>
        length (filter (\<lambda>g. g = ed_gmail_message_id ed1)
                  (gmail_ids (fst (handle_new_submission cfg e2 ?w1 ed2 orc2)))) = 1)"
    using second fresh by simp
qed

text \<open>The same message polled twice, the second time with another title.\<close>

theorem handle_new_submission_idempotent_witness:
  "ed_gmail_message_id (demo_mail\<lparr>ed_title := ''Again''\<rparr>) = ed_gmail_message_id demo_mail \<and>
   get_submission_by_gmail_id init_db (ed_gmail_message_id demo_mail) = None \<and>
   handle_new_submission demo_cfg (demo_env 20)
       (fst (handle_new_submission demo_cfg (demo_env 10) init_db demo_mail
               (pick_two ''alice'' ''bob'')))
       (demo_mail\<lparr>ed_title := ''Again''\<rparr>) (pick_one ''carol'') =
     (fst (handle_new_submission demo_cfg (demo_env 10) init_db demo_mail
              (pick_two ''alice'' ''bob'')), Inr ReturnNone) \<and>
   length (submissions
             (fst (handle_new_submission demo_cfg (demo_env 20)
                (fst (handle_new_submission demo_cfg (demo_env 10) init_db demo_mail
                        (pick_two ''alice'' ''bob'')))
                (demo_mail\<lparr>ed_title := ''Again''\<rparr>) (pick_one ''carol'')))) = 1"
proof -
  have h1: "ed_gmail_message_id (demo_mail\<lparr>ed_title := ''Again''\<rparr>) =
            ed_gmail_message_id demo_mail" by simp
  have h2: "get_submission_by_gmail_id init_db (ed_gmail_message_id demo_mail) = None"
    by (simp add: get_submission_by_gmail_id_def init_db_def)
  have h3: "length (submissions init_db) + 1 = 1" by (simp add: init_db_def)
  show ?thesis
    using handle_new_submission_idempotent
      [of "demo_mail\<lparr>ed_title := ''Again''\<rparr>" demo_mail demo_cfg "demo_env 20" "demo_env 10"
          init_db "pick_two ''alice'' ''bob''" "pick_one ''carol''"] h1 h2 h3
    by metis
qed

section \<open>What each store operation leaves alone\<close>

lemma post_frame [simp]:
  "submissions (post w m) = submissions w" "assignments (post w m) = assignments w"
  "assignments_seq (post w m) = assignments_seq w" "followups (post w m) = followups w"
  "rejections (post w m) = rejections w" "mail_log (post w m) = mail_log w"
  "assignment_history (post w m) = assignment_history w"
  by (simp_all add: post_def)

lemma send_mail_frame [simp]:
  "submissions (send_mail w m) = submissions w" "assignments (send_mail w m) = assignments w"
  "assignments_seq (send_mail w m) = assignments_seq w"
  "followups (send_mail w m) = followups w" "rejections (send_mail w m) = rejections w"
  "chat_log (send_mail w m) = chat_log w"
  "assignment_history (send_mail w m) = assignment_history w"
  by (simp_all add: send_mail_def)

lemma update_submission_status_frame [simp]:
  "assignments (update_submission_status w sid st) = assignments w"
  "assignments_seq (update_submission_status w sid st) = assignments_seq w"
  "followups (update_submission_status w sid st) = followups w"
  "rejections (update_submission_status w sid st) = rejections w"
  "chat_log (update_submission_status w sid st) = chat_log w"
  "mail_log (update_submission_status w sid st) = mail_log w"
  "assignment_history (update_submission_status w sid st) = assignment_history w"
  by (simp_all add: update_submission_status_def)

lemma set_submission_accepted_frame [simp]:
  "assignments (set_submission_accepted w sid d t) = assignments w"
  "assignments_seq (set_submission_accepted w sid d t) = assignments_seq w"
  "followups (set_submission_accepted w sid d t) = followups w"
  "rejections (set_submission_accepted w sid d t) = rejections w"
  "chat_log (set_submission_accepted w sid d t) = chat_log w"
  "mail_log (set_submission_accepted w sid d t) = mail_log w"
  "assignment_history (set_submission_accepted w sid d t) = assignment_history w"
  by (simp_all add: set_submission_accepted_def)

lemma set_submission_rejected_frame [simp]:
  "assignments (set_submission_rejected w sid t) = assignments w"
  "assignments_seq (set_submission_rejected w sid t) = assignments_seq w"
  "followups (set_submission_rejected w sid t) = followups w"
  "rejections (set_submission_rejected w sid t) = rejections w"
  "chat_log (set_submission_rejected w sid t) = chat_log w"
  "mail_log (set_submission_rejected w sid t) = mail_log w"
  "assignment_history (set_submission_rejected w sid t) = assignment_history w"
  by (simp_all add: set_submission_rejected_def)

lemma set_tg_status_message_id_frame [simp]:
  "assignments (set_tg_status_message_id w sid mid) = assignments w"
  "assignments_seq (set_tg_status_message_id w sid mid) = assignments_seq w"
  "followups (set_tg_status_message_id w sid mid) = followups w"
  "rejections (set_tg_status_message_id w sid mid) = rejections w"
  "chat_log (set_tg_status_message_id w sid mid) = chat_log w"
  "mail_log (set_tg_status_message_id w sid mid) = mail_log w"
  "assignment_history (set_tg_status_message_id w sid mid) = assignment_history w"
  by (simp_all add: set_tg_status_message_id_def)

lemma update_assignment_status_frame [simp]:
  "submissions (update_assignment_status w sid u st tg t) = submissions w"
  "assignments_seq (update_assignment_status w sid u st tg t) = assignments_seq w"
  "followups (update_assignment_status w sid u st tg t) = followups w"
  "rejections (update_assignment_status w sid u st tg t) = rejections w"
  "chat_log (update_assignment_status w sid u st tg t) = chat_log w"
  "mail_log (update_assignment_status w sid u st tg t) = mail_log w"
  "assignment_history (update_assignment_status w sid u st tg t) = assignment_history w"
  by (simp_all add: update_assignment_status_def)

lemma mark_assignment_done_frame [simp]:
  "submissions (mark_assignment_done w sid u tg t) = submissions w"
  "assignments_seq (mark_assignment_done w sid u tg t) = assignments_seq w"
  "followups (mark_assignment_done w sid u tg t) = followups w"
  "rejections (mark_assignment_done w sid u tg t) = rejections w"
  "chat_log (mark_assignment_done w sid u tg t) = chat_log w"
  "mail_log (mark_assignment_done w sid u tg t) = mail_log w"
  "assignment_history (mark_assignment_done w sid u tg t) = assignment_history w"
  by (simp_all add: mark_assignment_done_def)

lemma clear_pending_assignments_frame [simp]:
  "submissions (clear_pending_assignments w sid) = submissions w"
  "assignments_seq (clear_pending_assignments w sid) = assignments_seq w"
  "followups (clear_pending_assignments w sid) = followups w"
  "rejections (clear_pending_assignments w sid) = rejections w"
  "chat_log (clear_pending_assignments w sid) = chat_log w"
  "mail_log (clear_pending_assignments w sid) = mail_log w"
  "assignment_history (clear_pending_assignments w sid) = assignment_history w"
  by (simp_all add: clear_pending_assignments_def)

lemma mark_followup_sent_frame [simp]:
  "submissions (mark_followup_sent w fid t) = submissions w"
  "assignments (mark_followup_sent w fid t) = assignments w"
  "assignments_seq (mark_followup_sent w fid t) = assignments_seq w"
  "rejections (mark_followup_sent w fid t) = rejections w"
  "chat_log (mark_followup_sent w fid t) = chat_log w"
  "mail_log (mark_followup_sent w fid t) = mail_log w"
  "assignment_history (mark_followup_sent w fid t) = assignment_history w"
  by (simp_all add: mark_followup_sent_def)

lemma set_rejection_proposal_message_id_frame [simp]:
  "submissions (set_rejection_proposal_message_id w rid mid) = submissions w"
  "assignments (set_rejection_proposal_message_id w rid mid) = assignments w"
  "assignments_seq (set_rejection_proposal_message_id w rid mid) = assignments_seq w"
  "followups (set_rejection_proposal_message_id w rid mid) = followups w"
  "chat_log (set_rejection_proposal_message_id w rid mid) = chat_log w"
  "mail_log (set_rejection_proposal_message_id w rid mid) = mail_log w"
  "assignment_history (set_rejection_proposal_message_id w rid mid) = assignment_history w"
  by (simp_all add: set_rejection_proposal_message_id_def)

lemma insert_followup_frame:
  assumes "insert_followup w sid at = Inr w'"
  shows "submissions w' = submissions w" "assignments w' = assignments w"
    "assignments_seq w' = assignments_seq w" "rejections w' = rejections w"
    "chat_log w' = chat_log w" "mail_log w' = mail_log w"
    "assignment_history w' = assignment_history w"
    "followups w' = followups w @ [\<lparr>fu_id = next_rowid (map fu_id (followups w)),
        fu_submission_id = sid, scheduled_at = at, sent_at = None\<rparr>]"
  using assms by (auto simp: insert_followup_def Let_def split: if_splits)

lemma insert_followup_exists:
  "get_submission_by_id w sid \<noteq> None \<Longrightarrow> \<exists>w'. insert_followup w sid at = Inr w'"
  by (simp add: insert_followup_def Let_def)

lemma insert_assignment_frame:
  assumes "insert_assignment w sid u now = Inr w'"
  shows "submissions w' = submissions w" "followups w' = followups w"
    "rejections w' = rejections w" "chat_log w' = chat_log w" "mail_log w' = mail_log w"
    "assignments w' = assignments w @
       [\<lparr>asg_id = Suc (max (assignments_seq w) (foldr max (map asg_id (assignments w)) 0)),
         asg_submission_id = sid, reviewer_tg_username = u, reviewer_tg_id = None,
         asg_status = Pending, assigned_at = now, responded_at = None, done_at = None\<rparr>]"
  using assms by (auto simp: insert_assignment_def Let_def split: if_splits)

lemma get_submission_by_id_frame:
  "submissions w' = submissions w \<Longrightarrow> get_submission_by_id w' sid = get_submission_by_id w sid"
  by (simp add: get_submission_by_id_def)

lemma get_assignment_frame:
  "assignments w' = assignments w \<Longrightarrow> get_assignment w' sid u = get_assignment w sid u"
  by (simp add: get_assignment_def)

lemma find_map_status:
  "(\<And>s. sub_id (f s) = sub_id s) \<Longrightarrow>
   find (\<lambda>s. sub_id s = sid) (map f xs) = map_option f (find (\<lambda>s. sub_id s = sid) xs)"
  by (induction xs) auto

lemma get_submission_update_status:
  "get_submission_by_id (update_submission_status w sid st) sid' =
     map_option (\<lambda>s. if sub_id s = sid then s\<lparr>sub_status := st\<rparr> else s)
       (get_submission_by_id w sid')"
  unfolding get_submission_by_id_def update_submission_status_def
  by (simp add: find_map_status)

lemma get_submission_set_message_id:
  "get_submission_by_id (set_tg_status_message_id w sid mid) sid' =
     map_option (\<lambda>s. if sub_id s = sid then s\<lparr>tg_status_message_id := Some mid\<rparr> else s)
       (get_submission_by_id w sid')"
  unfolding get_submission_by_id_def set_tg_status_message_id_def
  by (simp add: find_map_status)

lemma get_submission_set_accepted:
  "get_submission_by_id (set_submission_accepted w sid d t) sid' =
     map_option (\<lambda>s. if sub_id s = sid
                      then s\<lparr>sub_status := Accepted, accepted_at := Some t,
                             publish_date := Some d\<rparr> else s)
       (get_submission_by_id w sid')"
  unfolding get_submission_by_id_def set_submission_accepted_def
  by (simp add: find_map_status)

lemma get_submission_set_rejected:
  "get_submission_by_id (set_submission_rejected w sid t) sid' =
     map_option (\<lambda>s. if sub_id s = sid
                      then s\<lparr>sub_status := Rejected, rejected_at := Some t\<rparr> else s)
       (get_submission_by_id w sid')"
  unfolding get_submission_by_id_def set_submission_rejected_def
  by (simp add: find_map_status)

lemma get_submission_sub_id:
  "get_submission_by_id w sid = Some s \<Longrightarrow> sub_id s = sid"
  unfolding get_submission_by_id_def by (auto simp: find_Some_iff)

section \<open>The transition to under review\<close>

lemma transition_to_under_review_assignments:
  "assignments (fst (transition_to_under_review cfg e w sid)) = assignments w"
  unfolding transition_to_under_review_def Let_def
  by (auto split: sum.splits option.splits dest: insert_followup_frame(2))

section \<open>Accepting an assignment\<close>

lemma latest_by_id_map:
  "(\<And>a. asg_id (f a) = asg_id a) \<Longrightarrow>
   latest_by_id (map f xs) = map_option f (latest_by_id xs)"
  by (induction xs) (auto split: option.splits)

lemma latest_by_id_mem: "latest_by_id xs = Some a \<Longrightarrow> a \<in> set xs"
  by (induction xs arbitrary: a) (auto split: option.splits if_splits)

lemma get_assignment_pairing:
  "get_assignment w sid u = Some a \<Longrightarrow>
     a \<in> set (assignments w) \<and> asg_submission_id a = sid \<and> reviewer_tg_username a = u"
  unfolding get_assignment_def using latest_by_id_mem by fastforce

lemma get_assignment_update:
  "get_assignment (update_assignment_status w sid u st (Some tg) t) sid u =
     map_option (\<lambda>a. a\<lparr>asg_status := st, responded_at := Some t, reviewer_tg_id := Some tg\<rparr>)
       (get_assignment w sid u)"
proof -
  let ?P = "\<lambda>a. asg_submission_id a = sid \<and> reviewer_tg_username a = u"
  let ?f = "\<lambda>a. a\<lparr>asg_status := st, responded_at := Some t, reviewer_tg_id := Some tg\<rparr>"
  let ?g = "\<lambda>a. if ?P a then ?f a else a"
  have "filter ?P (map ?g xs) = map ?f (filter ?P xs)" for xs
    by (induction xs) auto
  then have "filter ?P (map ?g (assignments w)) = map ?f (filter ?P (assignments w))" .
  moreover have "assignments (update_assignment_status w sid u st (Some tg) t) =
                 map ?g (assignments w)"
    by (simp add: update_assignment_status_def)
  moreover have "latest_by_id (map ?f xs) = map_option ?f (latest_by_id xs)" for xs
    by (rule latest_by_id_map) simp
  ultimately show ?thesis
    unfolding get_assignment_def by simp
qed

lemma fst_relabel [simp]:
  "fst (case p of (w2, Inl err) \<Rightarrow> (w2, Inl err) | (w2, Inr x) \<Rightarrow> (w2, Inr c)) = fst p"
  by (auto split: prod.splits sum.splits)

lemma handle_reviewer_accept_pending:
  assumes "get_assignment w sid u = Some a" "asg_status a = Pending"
  shows "assignments (fst (handle_reviewer_accept cfg e w sid u tg)) =
         assignments (update_assignment_status w sid u Confirmed (Some tg) (clock e))"
  using assms unfolding handle_reviewer_accept_def Let_def
  by (simp add: transition_to_under_review_assignments)

lemma handle_reviewer_accept_repeat:
  assumes "get_assignment w sid u = Some a" "asg_status a = Pending"
  shows "handle_reviewer_accept cfg' e' (fst (handle_reviewer_accept cfg e w sid u tg)) sid u tg' =
         (fst (handle_reviewer_accept cfg e w sid u tg), Inr AlreadyRecorded)"
proof -
  let ?w' = "fst (handle_reviewer_accept cfg e w sid u tg)"
  have "get_assignment ?w' sid u =
        get_assignment (update_assignment_status w sid u Confirmed (Some tg) (clock e)) sid u"
    by (rule get_assignment_frame[OF handle_reviewer_accept_pending[OF assms]])
  then have "get_assignment ?w' sid u =
     Some (a\<lparr>asg_status := Confirmed, responded_at := Some (clock e),
              reviewer_tg_id := Some tg\<rparr>)"
    using assms(1) by (simp add: get_assignment_update)
  then show ?thesis by (simp add: handle_reviewer_accept_def)
qed

text \<open>
  C5. \<open>handle_reviewer_accept\<close> answers not-found and leaves the whole state as it is
  when the pairing has no row; it answers already-recorded and leaves the whole state
  as it is when the pairing's latest row is not pending; when that row is pending,
  the rows of the pairing (the latest one among them) become confirmed with the
  responder's chat id and the time of the call, every other assignment row is kept,
  and a repeated delivery of the same accept is answered already-recorded without
  any change.
\<close>

theorem handle_reviewer_accept_guards:
  "(get_assignment w sid u = None \<longrightarrow>
      handle_reviewer_accept cfg e w sid u tg = (w, Inr AssignmentNotFound)) \<and>
   (get_assignment w sid u = Some a \<and> asg_status a \<noteq> Pending \<longrightarrow>
      handle_reviewer_accept cfg e w sid u tg = (w, Inr AlreadyRecorded)) \<and>
   (get_assignment w sid u = Some a \<and> asg_status a = Pending \<longrightarrow>
      assignments (fst (handle_reviewer_accept cfg e w sid u tg)) =
        map (\<lambda>r. if asg_submission_id r = sid \<and> reviewer_tg_username r = u
                  then r\<lparr>asg_status := Confirmed, responded_at := Some (clock e),
                         reviewer_tg_id := Some tg\<rparr>
                  else r) (assignments w) \<and>
      get_assignment (fst (handle_reviewer_accept cfg e w sid u tg)) sid u =
        Some (a\<lparr>asg_status := Confirmed, responded_at := Some (clock e),
                 reviewer_tg_id := Some tg\<rparr>) \<and>
      handle_reviewer_accept cfg' e' (fst (handle_reviewer_accept cfg e w sid u tg)) sid u tg' =
        (fst (handle_reviewer_accept cfg e w sid u tg), Inr AlreadyRecorded))"
proof (intro conjI impI)
  assume "get_assignment w sid u = None"
  then show "handle_reviewer_accept cfg e w sid u tg = (w, Inr AssignmentNotFound)"
    by (simp add: handle_reviewer_accept_def)
next
  assume "get_assignment w sid u = Some a \<and> asg_status a \<noteq> Pending"
  then show "handle_reviewer_accept cfg e w sid u tg = (w, Inr AlreadyRecorded)"
    by (simp add: handle_reviewer_accept_def)
next
  assume h: "get_assignment w sid u = Some a \<and> asg_status a = Pending"
  then have a: "get_assignment w sid u = Some a" and p: "asg_status a = Pending" by auto
  let ?w' = "fst (handle_reviewer_accept cfg e w sid u tg)"
  have eq: "assignments ?w' =
        assignments (update_assignment_status w sid u Confirmed (Some tg) (clock e))"
    by (rule handle_reviewer_accept_pending[OF a p])
  then show "assignments ?w' =
        map (\<lambda>r. if asg_submission_id r = sid \<and> reviewer_tg_username r = u
                  then r\<lparr>asg_status := Confirmed, responded_at := Some (clock e),
                         reviewer_tg_id := Some tg\<rparr>
                  else r) (assignments w)"
    by (simp add: update_assignment_status_def)
  show "get_assignment ?w' sid u =
        Some (a\<lparr>asg_status := Confirmed, responded_at := Some (clock e),
                 reviewer_tg_id := Some tg\<rparr>)"
    using get_assignment_frame[OF eq, of sid u] a by (simp add: get_assignment_update)
  show "handle_reviewer_accept cfg' e' ?w' sid u tg' = (?w', Inr AlreadyRecorded)"
    by (rule handle_reviewer_accept_repeat[OF a p])
qed

text \<open>
  On the admitted submission: \<open>bob\<close> has no row, \<open>alice\<close>'s row is pending, and after
  her accept the row is confirmed, so a second accept finds it not pending.
\<close>

theorem handle_reviewer_accept_guards_witness:
  "get_assignment demo_assigning 1 ''bob'' = None \<and>
   handle_reviewer_accept demo_cfg (demo_env 20) demo_assigning 1 ''bob'' 8 =
     (demo_assigning, Inr AssignmentNotFound) \<and>
   get_assignment demo_assigning 1 ''alice'' =
     Some \<lparr>asg_id = 1, asg_submission_id = 1, reviewer_tg_username = ''alice'',
           reviewer_tg_id = None, asg_status = Pending, assigned_at = 10,
           responded_at = None, done_at = None\<rparr> \<and>
   get_assignment (fst (handle_reviewer_accept demo_cfg (demo_env 20) demo_assigning 1 ''alice'' 7))
       1 ''alice'' =
     Some \<lparr>asg_id = 1, asg_submission_id = 1, reviewer_tg_username = ''alice'',
           reviewer_tg_id = Some 7, asg_status = Confirmed, assigned_at = 10,
           responded_at = Some 20, done_at = None\<rparr> \<and>
   handle_reviewer_accept demo_cfg (demo_env 30)
       (fst (handle_reviewer_accept demo_cfg (demo_env 20) demo_assigning 1 ''alice'' 7))
       1 ''alice'' 7 =
     (fst (handle_reviewer_accept demo_cfg (demo_env 20) demo_assigning 1 ''alice'' 7),
      Inr AlreadyRecorded)"
proof -
  let ?a = "\<lparr>asg_id = 1, asg_submission_id = 1, reviewer_tg_username = ''alice'',
           reviewer_tg_id = None, asg_status = Pending, assigned_at = 10,
           responded_at = None, done_at = None\<rparr>"
  let ?w' = "fst (handle_reviewer_accept demo_cfg (demo_env 20) demo_assigning 1 ''alice'' 7)"
  have h1: "get_assignment demo_assigning 1 ''bob'' = None" by code_simp
  have h2: "get_assignment demo_assigning 1 ''alice'' = Some ?a" by code_simp
  have h3: "asg_status ?a = Pending" by simp
  have c: "clock (demo_env 20) = 20" by (simp add: demo_env_def)
  note t1 = handle_reviewer_accept_guards
    [of demo_assigning 1 "''bob''" demo_cfg "demo_env 20" 8 ?a demo_cfg "demo_env 30" 7]
  note t2 = handle_reviewer_accept_guards
    [of demo_assigning 1 "''alice''" demo_cfg "demo_env 20" 7 ?a demo_cfg "demo_env 30" 7]
  from t1 h1 have r1: "handle_reviewer_accept demo_cfg (demo_env 20) demo_assigning 1 ''bob'' 8 =
     (demo_assigning, Inr AssignmentNotFound)" by blast
  from t2 h2 h3 have r2: "get_assignment ?w' 1 ''alice'' =
        Some (?a\<lparr>asg_status := Confirmed, responded_at := Some (clock (demo_env 20)),
                 reviewer_tg_id := Some 7\<rparr>)"
    and r3: "handle_reviewer_accept demo_cfg (demo_env 30) ?w' 1 ''alice'' 7 =
             (?w', Inr AlreadyRecorded)"
    by blast+
  from r2 c have r2': "get_assignment ?w' 1 ''alice'' =
     Some \<lparr>asg_id = 1, asg_submission_id = 1, reviewer_tg_username = ''alice'',
           reviewer_tg_id = Some 7, asg_status = Confirmed, assigned_at = 10,
           responded_at = Some 20, done_at = None\<rparr>" by simp
  from h1 r1 h2 r2' r3 show ?thesis by blast
qed

section \<open>Marking a review done\<close>

lemma get_submission_by_id_same [simp]:
  "get_submission_by_id (post w m) sid = get_submission_by_id w sid"
  "get_submission_by_id (send_mail w ml) sid = get_submission_by_id w sid"
  "get_submission_by_id (update_assignment_status w s u st tg t) sid = get_submission_by_id w sid"
  "get_submission_by_id (mark_assignment_done w s u tg t) sid = get_submission_by_id w sid"
  "get_submission_by_id (clear_pending_assignments w s) sid = get_submission_by_id w sid"
  "get_submission_by_id (mark_followup_sent w fid t) sid = get_submission_by_id w sid"
  "get_submission_by_id (set_rejection_proposal_message_id w rid mid) sid =
     get_submission_by_id w sid"
  by (simp_all add: get_submission_by_id_def)

lemma get_assignment_same [simp]:
  "get_assignment (post w m) sid u = get_assignment w sid u"
  "get_assignment (send_mail w ml) sid u = get_assignment w sid u"
  "get_assignment (update_submission_status w s st) sid u = get_assignment w sid u"
  "get_assignment (set_submission_accepted w s d t) sid u = get_assignment w sid u"
  "get_assignment (set_submission_rejected w s t) sid u = get_assignment w sid u"
  "get_assignment (set_tg_status_message_id w s mid) sid u = get_assignment w sid u"
  "get_assignment (mark_followup_sent w fid t) sid u = get_assignment w sid u"
  "get_assignment (set_rejection_proposal_message_id w rid mid) sid u = get_assignment w sid u"
  by (simp_all add: get_assignment_def)

lemma snd_relabel [simp]:
  "snd (case p of (w2, Inl err) \<Rightarrow> (w2, Inl err) | (w2, Inr x) \<Rightarrow> (w2, Inr c)) =
     (case snd p of Inl err \<Rightarrow> Inl err | Inr x \<Rightarrow> Inr c)"
  by (auto split: prod.splits sum.splits)

lemma length_filter_all: "(length xs \<le> length (filter P xs)) = (\<forall>x\<in>set xs. P x)"
proof
  assume "length xs \<le> length (filter P xs)"
  then have "length (filter P xs) = length xs"
    using length_filter_le[of P xs] by simp
  then show "\<forall>x\<in>set xs. P x"
    by (metis filter_id_conv length_filter_less less_irrefl)
next
  assume "\<forall>x\<in>set xs. P x"
  then have "filter P xs = xs" by (simp add: filter_id_conv)
  then show "length xs \<le> length (filter P xs)" by simp
qed

lemma get_assignment_mark_done:
  "get_assignment (mark_assignment_done w sid u (Some tg) t) sid u =
     map_option (\<lambda>a. a\<lparr>asg_status := Done, done_at := Some t, reviewer_tg_id := Some tg\<rparr>)
       (get_assignment w sid u)"
proof -
  let ?P = "\<lambda>a. asg_submission_id a = sid \<and> reviewer_tg_username a = u"
  let ?f = "\<lambda>a. a\<lparr>asg_status := Done, done_at := Some t, reviewer_tg_id := Some tg\<rparr>"
  let ?g = "\<lambda>a. if ?P a then ?f a else a"
  have "filter ?P (map ?g xs) = map ?f (filter ?P xs)" for xs
    by (induction xs) auto
  then have "filter ?P (map ?g (assignments w)) = map ?f (filter ?P (assignments w))" .
  moreover have "assignments (mark_assignment_done w sid u (Some tg) t) =
                 map ?g (assignments w)"
    by (simp add: mark_assignment_done_def)
  moreover have "latest_by_id (map ?f xs) = map_option ?f (latest_by_id xs)" for xs
    by (rule latest_by_id_map) simp
  ultimately show ?thesis
    unfolding get_assignment_def by simp
qed

lemma transition_to_accepted_assignments:
  "assignments (fst (transition_to_accepted cfg e w sid dl)) = assignments w"
  unfolding transition_to_accepted_def Let_def
  by (auto split: sum.splits option.splits)

lemma transition_to_accepted_ok:
  assumes "get_submission_by_id w sid = Some sub"
    and "compute_publish_date (local_now e)
           (case publish_time cfg of None \<Rightarrow> ''09:30'' | Some t \<Rightarrow> t) = Inr d"
  shows "status_of (fst (transition_to_accepted cfg e w sid dl)) sid = Some Accepted"
    and "chat_ok e \<Longrightarrow> snd (transition_to_accepted cfg e w sid dl) = Inr ReturnNone"
  using assms get_submission_sub_id[OF assms(1)]
  unfolding transition_to_accepted_def Let_def status_of_def
  by (auto simp: get_submission_set_accepted)

lemma handle_reviewer_done_unfold:
  assumes "get_submission_by_id w sid = Some sub"
    and "sub_status sub = UnderReview \<or> sub_status sub = Assigning"
    and "get_assignment w sid u = Some a" and "asg_status a \<noteq> Done"
  shows "handle_reviewer_done cfg e w sid u tg =
     (let w1 = mark_assignment_done w sid u (Some tg) (clock e);
          active = filter (\<lambda>a. asg_status a = Confirmed \<or> asg_status a = Done)
                     (get_assignments_for_submission w1 sid);
          done_list = filter (\<lambda>a. asg_status a = Done) active
      in if active \<noteq> [] \<and> length done_list \<ge> length active
         then (case transition_to_accepted cfg e w1 sid done_list of
                 (w2, Inl err) \<Rightarrow> (w2, Inl err)
               | (w2, Inr _) \<Rightarrow> (w2, Inr ReviewMarkedDone))
         else
           let still_pending =
                 map reviewer_tg_username
                   (filter (\<lambda>a. asg_status a = Confirmed \<and> reviewer_tg_username a \<noteq> u) active)
           in if still_pending \<noteq> []
              then (if chat_ok e
                    then (post w1 (MsgWaiting sid u still_pending), Inr ReviewMarkedDone)
                    else (w1, Inl ChatError))
              else (w1, Inr ReviewMarkedDone))"
  using assms unfolding handle_reviewer_done_def
  by (cases "sub_status sub") (simp_all add: Let_def)

lemma handle_reviewer_done_marks:
  assumes "get_submission_by_id w sid = Some sub"
    and "sub_status sub = UnderReview \<or> sub_status sub = Assigning"
    and "get_assignment w sid u = Some a" and "asg_status a \<noteq> Done"
  shows "assignments (fst (handle_reviewer_done cfg e w sid u tg)) =
         assignments (mark_assignment_done w sid u (Some tg) (clock e))"
  unfolding handle_reviewer_done_unfold[OF assms] Let_def
  by (simp add: transition_to_accepted_assignments)

lemma handle_reviewer_done_main_reply:
  assumes "get_submission_by_id w sid = Some sub"
    and "sub_status sub = UnderReview \<or> sub_status sub = Assigning"
    and "get_assignment w sid u = Some a" and "asg_status a \<noteq> Done"
  shows "snd (handle_reviewer_done cfg e w sid u tg) = Inr ReviewMarkedDone \<or>
         (\<exists>err. snd (handle_reviewer_done cfg e w sid u tg) = Inl err)"
  unfolding handle_reviewer_done_unfold[OF assms] Let_def
  by (auto split: sum.splits)

lemma handle_reviewer_done_replies:
  assumes "get_submission_by_id w sid = Some sub"
    and "sub_status sub = UnderReview \<or> sub_status sub = Assigning"
    and "chat_ok e"
    and "compute_publish_date (local_now e)
           (case publish_time cfg of None \<Rightarrow> ''09:30'' | Some t \<Rightarrow> t) = Inr d"
    and "get_assignment w sid u = Some a" and "asg_status a \<noteq> Done"
  shows "snd (handle_reviewer_done cfg e w sid u tg) = Inr ReviewMarkedDone"
proof -
  define w1 where "w1 = mark_assignment_done w sid u (Some tg) (clock e)"
  have s1: "get_submission_by_id w1 sid = Some sub"
    using assms(1) by (simp add: w1_def)
  have t: "snd (transition_to_accepted cfg e w1 sid dl) = Inr ReturnNone" for dl
    by (rule transition_to_accepted_ok(2)[OF s1 assms(4) assms(3)])
  show ?thesis
    unfolding handle_reviewer_done_unfold[OF assms(1,2,5,6)] Let_def w1_def[symmetric]
    by (simp add: t assms(3))
qed
lemma handle_reviewer_done_accepts:
  assumes "get_submission_by_id w sid = Some sub"
    and "sub_status sub = UnderReview \<or> sub_status sub = Assigning"
    and "compute_publish_date (local_now e)
           (case publish_time cfg of None \<Rightarrow> ''09:30'' | Some t \<Rightarrow> t) = Inr d"
    and "get_assignment w sid u = Some a" and "asg_status a \<noteq> Done"
    and "\<forall>r\<in>set (assignments w). asg_submission_id r = sid \<and> asg_status r = Confirmed
           \<longrightarrow> reviewer_tg_username r = u"
  shows "status_of (fst (handle_reviewer_done cfg e w sid u tg)) sid = Some Accepted"
proof -
  define w1 where "w1 = mark_assignment_done w sid u (Some tg) (clock e)"
  define active where "active = filter (\<lambda>a. asg_status a = Confirmed \<or> asg_status a = Done)
                     (get_assignments_for_submission w1 sid)"
  define done_list where "done_list = filter (\<lambda>a. asg_status a = Done) active"
  define g where "g = (\<lambda>r::assignment. if asg_submission_id r = sid \<and> reviewer_tg_username r = u
      then r\<lparr>asg_status := Done, done_at := Some (clock e), reviewer_tg_id := Some tg\<rparr>
      else r)"
  have s1: "get_submission_by_id w1 sid = Some sub"
    using assms(1) by (simp add: w1_def)
  have m: "assignments w1 = map g (assignments w)"
    by (simp add: w1_def g_def mark_assignment_done_def)
  have act: "set active = {x \<in> g ` set (assignments w). asg_submission_id x = sid \<and>
                (asg_status x = Confirmed \<or> asg_status x = Done)}"
    unfolding active_def get_assignments_for_submission_def m by auto
  note pa = get_assignment_pairing[OF assms(4)]
  have ga: "asg_status (g a) = Done" "asg_submission_id (g a) = sid"
    using pa by (simp_all add: g_def)
  have "g a \<in> set active" unfolding act using pa ga by blast
  then have ne: "active \<noteq> []" by auto
  have "\<forall>x\<in>set active. asg_status x = Done"
  proof
    fix x assume "x \<in> set active"
    then obtain r where r: "r \<in> set (assignments w)" "x = g r" "asg_submission_id x = sid"
        "asg_status x = Confirmed \<or> asg_status x = Done"
      unfolding act by blast
    show "asg_status x = Done"
    proof (cases "asg_submission_id r = sid \<and> reviewer_tg_username r = u")
      case True
      then show ?thesis using r(2) by (simp add: g_def)
    next
      case False
      then have "g r = r" unfolding g_def by (simp only: if_False)
      then have xr: "x = r" using r(2) by simp
      with r(3,4) False assms(6) r(1) show ?thesis by blast
    qed
  qed
  then have all: "length active \<le> length done_list"
    unfolding done_list_def by (simp only: length_filter_all)
  have t: "status_of (fst (transition_to_accepted cfg e w1 sid done_list)) sid = Some Accepted"
    by (rule transition_to_accepted_ok(1)[OF s1 assms(3)])
  have "handle_reviewer_done cfg e w sid u tg =
          (case transition_to_accepted cfg e w1 sid done_list of
                 (w2, Inl err) \<Rightarrow> (w2, Inl err)
               | (w2, Inr _) \<Rightarrow> (w2, Inr ReviewMarkedDone))"
    unfolding handle_reviewer_done_unfold[OF assms(1,2,4,5)] Let_def
      w1_def[symmetric] active_def[symmetric] done_list_def[symmetric]
    using ne all by (simp only: if_True simp_thms)
  then show ?thesis using t by simp
qed
text \<open>
  C10. For a submission in \<open>under_review\<close> or \<open>assigning\<close>, \<open>handle_reviewer_done\<close>
  refuses only a reviewer without a row (not assigned) and a reviewer whose latest
  row is already done; on any other latest row it goes on to mark the review done,
  and its answer is then the done message unless the chat transport or the publish
  date raises. In particular a declined latest row is set to done with the chat id
  and the time of the call, which puts the reviewer among the confirmed-or-done rows;
  when no other reviewer of the submission is still confirmed, the submission
  becomes accepted.
\<close>

theorem handle_reviewer_done_declined:
  "get_submission_by_id w sid = Some sub \<and>
   (sub_status sub = UnderReview \<or> sub_status sub = Assigning) \<longrightarrow>
     (get_assignment w sid u = None \<longrightarrow>
        handle_reviewer_done cfg e w sid u tg = (w, Inr NotAssigned)) \<and>
     (get_assignment w sid u = Some a \<and> asg_status a = Done \<longrightarrow>
        handle_reviewer_done cfg e w sid u tg = (w, Inr AlreadyRecorded)) \<and>
     (get_assignment w sid u = Some a \<and> asg_status a \<noteq> Done \<longrightarrow>
        (snd (handle_reviewer_done cfg e w sid u tg) = Inr ReviewMarkedDone \<or>
         (\<exists>err. snd (handle_reviewer_done cfg e w sid u tg) = Inl err)) \<and>
        (chat_ok e \<and>
         compute_publish_date (local_now e)
           (case publish_time cfg of None \<Rightarrow> ''09:30'' | Some t \<Rightarrow> t) = Inr d \<longrightarrow>
           snd (handle_reviewer_done cfg e w sid u tg) = Inr ReviewMarkedDone)) \<and>
     (get_assignment w sid u = Some a \<and> asg_status a = Declined \<longrightarrow>
        assignments (fst (handle_reviewer_done cfg e w sid u tg)) =
          map (\<lambda>r. if asg_submission_id r = sid \<and> reviewer_tg_username r = u
                    then r\<lparr>asg_status := Done, done_at := Some (clock e),
                           reviewer_tg_id := Some tg\<rparr>
                    else r) (assignments w) \<and>
        get_assignment (fst (handle_reviewer_done cfg e w sid u tg)) sid u =
          Some (a\<lparr>asg_status := Done, done_at := Some (clock e), reviewer_tg_id := Some tg\<rparr>) \<and>
        (compute_publish_date (local_now e)
           (case publish_time cfg of None \<Rightarrow> ''09:30'' | Some t \<Rightarrow> t) = Inr d \<and>
         (\<forall>r\<in>set (assignments w).
            asg_submission_id r = sid \<and> asg_status r = Confirmed \<longrightarrow>
            reviewer_tg_username r = u) \<longrightarrow>
           status_of (fst (handle_reviewer_done cfg e w sid u tg)) sid = Some Accepted))"
proof (intro impI)
  assume h: "get_submission_by_id w sid = Some sub \<and>
   (sub_status sub = UnderReview \<or> sub_status sub = Assigning)"
  then have s: "get_submission_by_id w sid = Some sub"
    and st: "sub_status sub = UnderReview \<or> sub_status sub = Assigning" by auto
  have c1: "get_assignment w sid u = None \<longrightarrow>
        handle_reviewer_done cfg e w sid u tg = (w, Inr NotAssigned)"
    using s st by (auto simp: handle_reviewer_done_def)
  have c2: "get_assignment w sid u = Some a \<and> asg_status a = Done \<longrightarrow>
        handle_reviewer_done cfg e w sid u tg = (w, Inr AlreadyRecorded)"
    using s st by (auto simp: handle_reviewer_done_def)
  have c3: "get_assignment w sid u = Some a \<and> asg_status a \<noteq> Done \<longrightarrow>
        (snd (handle_reviewer_done cfg e w sid u tg) = Inr ReviewMarkedDone \<or>
         (\<exists>err. snd (handle_reviewer_done cfg e w sid u tg) = Inl err)) \<and>
        (chat_ok e \<and>
         compute_publish_date (local_now e)
           (case publish_time cfg of None \<Rightarrow> ''09:30'' | Some t \<Rightarrow> t) = Inr d \<longrightarrow>
           snd (handle_reviewer_done cfg e w sid u tg) = Inr ReviewMarkedDone)"
    using handle_reviewer_done_main_reply[OF s st, of u a cfg e tg]
      handle_reviewer_done_replies[OF s st, of e cfg d u a tg]
    by blast
  have c4: "get_assignment w sid u = Some a \<and> asg_status a = Declined \<longrightarrow>
        assignments (fst (handle_reviewer_done cfg e w sid u tg)) =
          map (\<lambda>r. if asg_submission_id r = sid \<and> reviewer_tg_username r = u
                    then r\<lparr>asg_status := Done, done_at := Some (clock e),
                           reviewer_tg_id := Some tg\<rparr>
                    else r) (assignments w) \<and>
        get_assignment (fst (handle_reviewer_done cfg e w sid u tg)) sid u =
          Some (a\<lparr>asg_status := Done, done_at := Some (clock e), reviewer_tg_id := Some tg\<rparr>) \<and>
        (compute_publish_date (local_now e)
           (case publish_time cfg of None \<Rightarrow> ''09:30'' | Some t \<Rightarrow> t) = Inr d \<and>
         (\<forall>r\<in>set (assignments w).
            asg_submission_id r = sid \<and> asg_status r = Confirmed \<longrightarrow>
            reviewer_tg_username r = u) \<longrightarrow>
           status_of (fst (handle_reviewer_done cfg e w sid u tg)) sid = Some Accepted)"
  proof (intro impI)
    assume d: "get_assignment w sid u = Some a \<and> asg_status a = Declined"
    then have a: "get_assignment w sid u = Some a" and nd: "asg_status a \<noteq> Done" by auto
    let ?w' = "fst (handle_reviewer_done cfg e w sid u tg)"
    have eq: "assignments ?w' =
              assignments (mark_assignment_done w sid u (Some tg) (clock e))"
      by (rule handle_reviewer_done_marks[OF s st a nd])
    have p1: "assignments ?w' =
          map (\<lambda>r. if asg_submission_id r = sid \<and> reviewer_tg_username r = u
                    then r\<lparr>asg_status := Done, done_at := Some (clock e),
                           reviewer_tg_id := Some tg\<rparr>
                    else r) (assignments w)"
      using eq by (simp add: mark_assignment_done_def)
    have p2: "get_assignment ?w' sid u =
          Some (a\<lparr>asg_status := Done, done_at := Some (clock e), reviewer_tg_id := Some tg\<rparr>)"
      using get_assignment_frame[OF eq, of sid u] a by (simp add: get_assignment_mark_done)
    have p3: "compute_publish_date (local_now e)
           (case publish_time cfg of None \<Rightarrow> ''09:30'' | Some t \<Rightarrow> t) = Inr d \<and>
         (\<forall>r\<in>set (assignments w).
            asg_submission_id r = sid \<and> asg_status r = Confirmed \<longrightarrow>
            reviewer_tg_username r = u) \<longrightarrow>
           status_of ?w' sid = Some Accepted"
      using handle_reviewer_done_accepts[OF s st _ a nd, of e cfg d tg] by blast
    from p1 p2 p3 show "assignments ?w' =
          map (\<lambda>r. if asg_submission_id r = sid \<and> reviewer_tg_username r = u
                    then r\<lparr>asg_status := Done, done_at := Some (clock e),
                           reviewer_tg_id := Some tg\<rparr>
                    else r) (assignments w) \<and>
        get_assignment ?w' sid u =
          Some (a\<lparr>asg_status := Done, done_at := Some (clock e), reviewer_tg_id := Some tg\<rparr>) \<and>
        (compute_publish_date (local_now e)
           (case publish_time cfg of None \<Rightarrow> ''09:30'' | Some t \<Rightarrow> t) = Inr d \<and>
         (\<forall>r\<in>set (assignments w).
            asg_submission_id r = sid \<and> asg_status r = Confirmed \<longrightarrow>
            reviewer_tg_username r = u) \<longrightarrow>
           status_of ?w' sid = Some Accepted)" by blast
  qed
  from c1 c2 c3 c4 show "(get_assignment w sid u = None \<longrightarrow>
        handle_reviewer_done cfg e w sid u tg = (w, Inr NotAssigned)) \<and>
     (get_assignment w sid u = Some a \<and> asg_status a = Done \<longrightarrow>
        handle_reviewer_done cfg e w sid u tg = (w, Inr AlreadyRecorded)) \<and>
     (get_assignment w sid u = Some a \<and> asg_status a \<noteq> Done \<longrightarrow>
        (snd (handle_reviewer_done cfg e w sid u tg) = Inr ReviewMarkedDone \<or>
         (\<exists>err. snd (handle_reviewer_done cfg e w sid u tg) = Inl err)) \<and>
        (chat_ok e \<and>
         compute_publish_date (local_now e)
           (case publish_time cfg of None \<Rightarrow> ''09:30'' | Some t \<Rightarrow> t) = Inr d \<longrightarrow>
           snd (handle_reviewer_done cfg e w sid u tg) = Inr ReviewMarkedDone)) \<and>
     (get_assignment w sid u = Some a \<and> asg_status a = Declined \<longrightarrow>
        assignments (fst (handle_reviewer_done cfg e w sid u tg)) =
          map (\<lambda>r. if asg_submission_id r = sid \<and> reviewer_tg_username r = u
                    then r\<lparr>asg_status := Done, done_at := Some (clock e),
                           reviewer_tg_id := Some tg\<rparr>
                    else r) (assignments w) \<and>
        get_assignment (fst (handle_reviewer_done cfg e w sid u tg)) sid u =
          Some (a\<lparr>asg_status := Done, done_at := Some (clock e), reviewer_tg_id := Some tg\<rparr>) \<and>
        (compute_publish_date (local_now e)
           (case publish_time cfg of None \<Rightarrow> ''09:30'' | Some t \<Rightarrow> t) = Inr d \<and>
         (\<forall>r\<in>set (assignments w).
            asg_submission_id r = sid \<and> asg_status r = Confirmed \<longrightarrow>
            reviewer_tg_username r = u) \<longrightarrow>
           status_of (fst (handle_reviewer_done cfg e w sid u tg)) sid = Some Accepted))"
    by (intro conjI)
qed

text \<open>
  After \<open>alice\<close> declined, the submission is still assigning and her row is its only
  one; her later done-mark is accepted, turns the declined row into a done row, and
  the submission becomes accepted.
\<close>

theorem handle_reviewer_done_declined_witness:
  "status_of demo_declined 1 = Some Assigning \<and>
   map_option asg_status (get_assignment demo_declined 1 ''alice'') = Some Declined \<and>
   snd (handle_reviewer_done demo_cfg (demo_env 30) demo_declined 1 ''alice'' 7) =
     Inr ReviewMarkedDone \<and>
   map_option asg_status
     (get_assignment (fst (handle_reviewer_done demo_cfg (demo_env 30) demo_declined 1 ''alice'' 7))
        1 ''alice'') = Some Done \<and>
   status_of (fst (handle_reviewer_done demo_cfg (demo_env 30) demo_declined 1 ''alice'' 7)) 1 =
     Some Accepted"
proof -
  let ?sub = "\<lparr>sub_id = 1, sub_email = demo_mail, sub_status = Assigning, created_at = 10,
               accepted_at = None, rejected_at = None, publish_date = None,
               tg_status_message_id = Some 100\<rparr>"
  let ?a = "\<lparr>asg_id = 1, asg_submission_id = 1, reviewer_tg_username = ''alice'',
             reviewer_tg_id = Some 7, asg_status = Declined, assigned_at = 10,
             responded_at = Some 20, done_at = None\<rparr>"
  let ?d = "\<lparr>dt_ordinal = 738893, dt_hour = 9, dt_minute = 30, dt_second = 0,
             dt_microsecond = 0\<rparr>"
  let ?w' = "fst (handle_reviewer_done demo_cfg (demo_env 30) demo_declined 1 ''alice'' 7)"
  have h1: "get_submission_by_id demo_declined 1 = Some ?sub" by code_simp
  have h2: "sub_status ?sub = Assigning" by simp
  have h3: "get_assignment demo_declined 1 ''alice'' = Some ?a" by code_simp
  have h4: "asg_status ?a = Declined" "asg_status ?a \<noteq> Done" by simp_all
  have h5: "chat_ok (demo_env 30)" by (simp add: demo_env_def)
  have h6: "compute_publish_date (local_now (demo_env 30))
           (case publish_time demo_cfg of None \<Rightarrow> ''09:30'' | Some t \<Rightarrow> t) = Inr ?d"
    by code_simp
  have h7: "\<forall>r\<in>set (assignments demo_declined).
            asg_submission_id r = 1 \<and> asg_status r = Confirmed \<longrightarrow>
            reviewer_tg_username r = ''alice''" by code_simp
  note t = handle_reviewer_done_declined
    [of demo_declined 1 ?sub "''alice''" demo_cfg "demo_env 30" 7 ?a ?d]
  from t h1 h2 h3 h4 h5 h6 have r1: "snd (handle_reviewer_done demo_cfg (demo_env 30)
       demo_declined 1 ''alice'' 7) = Inr ReviewMarkedDone" by blast
  from t h1 h2 h3 h4 have r2: "get_assignment ?w' 1 ''alice'' =
          Some (?a\<lparr>asg_status := Done, done_at := Some (clock (demo_env 30)),
                   reviewer_tg_id := Some 7\<rparr>)" by blast
  from t h1 h2 h3 h4 h6 h7 have r3: "status_of ?w' 1 = Some Accepted" by blast
  have s0: "status_of demo_declined 1 = Some Assigning"
    using h1 by (simp add: status_of_def)
  from s0 h3 r1 r2 r3 show ?thesis by simp
qed

section \<open>A single active reviewer\<close>

lemma status_of_same [simp]:
  "status_of (post w m) sid = status_of w sid"
  "status_of (send_mail w ml) sid = status_of w sid"
  "status_of (update_assignment_status w s u st tg t) sid = status_of w sid"
  "status_of (mark_assignment_done w s u tg t) sid = status_of w sid"
  "status_of (clear_pending_assignments w s) sid = status_of w sid"
  "status_of (mark_followup_sent w fid t) sid = status_of w sid"
  "status_of (set_rejection_proposal_message_id w rid mid) sid = status_of w sid"
  by (simp_all add: status_of_def)

lemma status_of_set_message_id [simp]:
  "status_of (set_tg_status_message_id w s mid) sid = status_of w sid"
  by (cases "get_submission_by_id w sid")
     (simp_all add: status_of_def get_submission_set_message_id)

lemma status_of_update_status:
  "status_of (update_submission_status w s st) sid =
     (if s = sid \<and> status_of w sid \<noteq> None then Some st else status_of w sid)"
  by (cases "get_submission_by_id w sid")
     (auto simp: status_of_def get_submission_update_status dest: get_submission_sub_id)

lemma status_of_frame:
  "submissions w' = submissions w \<Longrightarrow> status_of w' sid = status_of w sid"
  by (simp add: status_of_def get_submission_by_id_def)

lemma transition_to_under_review_status:
  assumes "get_submission_by_id w sid = Some sub"
  shows "status_of (fst (transition_to_under_review cfg e w sid)) sid = Some UnderReview"
proof -
  define w1 where "w1 = update_submission_status w sid UnderReview"
  have "status_of w sid = Some (sub_status sub)" using assms by (simp add: status_of_def)
  then have s1: "status_of w1 sid = Some UnderReview"
    by (simp add: w1_def status_of_update_status)
  then have "get_submission_by_id w1 sid \<noteq> None" by (auto simp: status_of_def)
  then obtain w2 where w2: "insert_followup w1 sid
      (clock e + followup_interval_days cfg * 86400) = Inr w2"
    using insert_followup_exists by blast
  have s2: "status_of w2 sid = Some UnderReview"
    using status_of_frame[OF insert_followup_frame(1)[OF w2]] s1 by simp
  show ?thesis
    unfolding transition_to_under_review_def Let_def w1_def[symmetric]
    using assms w2 s2 by simp
qed

lemma handle_reviewer_accept_single:
  assumes sub: "get_submission_by_id w sid = Some sub"
    and single: "filter (\<lambda>r. asg_submission_id r = sid \<and> asg_status r \<noteq> Declined)
                   (assignments w) = [a]"
    and latest: "get_assignment w sid u = Some a"
    and pending: "asg_status a = Pending"
  shows "status_of (fst (handle_reviewer_accept cfg e w sid u tg)) sid = Some UnderReview"
proof -
  define w1 where "w1 = update_assignment_status w sid u Confirmed (Some tg) (clock e)"
  define g where "g = (\<lambda>r::assignment.
      if asg_submission_id r = sid \<and> reviewer_tg_username r = u
      then r\<lparr>asg_status := Confirmed, responded_at := Some (clock e),
             reviewer_tg_id := Some tg\<rparr>
      else r)"
  define active where "active = filter (\<lambda>a. asg_status a \<noteq> Declined)
                          (get_assignments_for_submission w1 sid)"
  have m: "assignments w1 = map g (assignments w)"
    by (simp add: w1_def g_def update_assignment_status_def)
  note pa = get_assignment_pairing[OF latest]
  have act: "set active = {x \<in> g ` set (assignments w). asg_submission_id x = sid \<and>
                asg_status x \<noteq> Declined}"
    unfolding active_def get_assignments_for_submission_def m by auto
  have ga: "asg_status (g a) = Confirmed" "asg_submission_id (g a) = sid"
    using pa by (simp_all add: g_def)
  have "g a \<in> set active" unfolding act using pa ga by force
  then have ne: "active \<noteq> []" by auto
  have only: "r \<in> set (assignments w) \<Longrightarrow> asg_submission_id r = sid \<Longrightarrow>
              asg_status r \<noteq> Declined \<Longrightarrow> r = a" for r
  proof -
    assume "r \<in> set (assignments w)" "asg_submission_id r = sid" "asg_status r \<noteq> Declined"
    then have "r \<in> set (filter (\<lambda>r. asg_submission_id r = sid \<and> asg_status r \<noteq> Declined)
                   (assignments w))" by simp
    then show "r = a" unfolding single by simp
  qed
  have "\<forall>x\<in>set active. asg_status x \<noteq> Pending"
  proof
    fix x assume "x \<in> set active"
    then obtain r where r: "r \<in> set (assignments w)" "x = g r" "asg_submission_id x = sid"
        "asg_status x \<noteq> Declined"
      unfolding act by blast
    show "asg_status x \<noteq> Pending"
    proof (cases "asg_submission_id r = sid \<and> reviewer_tg_username r = u")
      case True
      then show ?thesis using r(2) by (simp add: g_def)
    next
      case False
      then have "g r = r" unfolding g_def by (simp only: if_False)
      then have xr: "x = r" using r(2) by simp
      then have "r = a" using only r by simp
      with False pa show ?thesis by simp
    qed
  qed
  then have np: "filter (\<lambda>a. asg_status a = Pending) active = []"
    by (simp add: filter_empty_conv)
  have s1: "get_submission_by_id w1 sid = Some sub" using sub by (simp add: w1_def)
  have "handle_reviewer_accept cfg e w sid u tg =
          (case transition_to_under_review cfg e w1 sid of
             (w2, Inl err) \<Rightarrow> (w2, Inl err)
           | (w2, Inr _) \<Rightarrow> (w2, Inr ConfirmedThanks))"
    unfolding handle_reviewer_accept_def Let_def
      w1_def[symmetric] active_def[symmetric]
    using latest pending ne np by simp
  then show ?thesis using transition_to_under_review_status[OF s1] by simp
qed

lemma handle_reviewer_done_single:
  assumes sub: "get_submission_by_id w sid = Some sub"
    and st: "sub_status sub = UnderReview \<or> sub_status sub = Assigning"
    and single: "filter (\<lambda>r. asg_submission_id r = sid \<and> asg_status r \<noteq> Declined)
                   (assignments w) = [a]"
    and latest: "get_assignment w sid u = Some a"
    and nd: "asg_status a \<noteq> Done"
    and pd: "compute_publish_date (local_now e)
               (case publish_time cfg of None \<Rightarrow> ''09:30'' | Some t \<Rightarrow> t) = Inr d"
  shows "status_of (fst (handle_reviewer_done cfg e w sid u tg)) sid = Some Accepted"
proof -
  note pa = get_assignment_pairing[OF latest]
  have "\<forall>r\<in>set (assignments w). asg_submission_id r = sid \<and> asg_status r = Confirmed
           \<longrightarrow> reviewer_tg_username r = u"
  proof (intro ballI impI)
    fix r assume r: "r \<in> set (assignments w)"
      "asg_submission_id r = sid \<and> asg_status r = Confirmed"
    then have "r \<in> set (filter (\<lambda>r. asg_submission_id r = sid \<and> asg_status r \<noteq> Declined)
                   (assignments w))" by simp
    then have "r = a" unfolding single by simp
    with pa show "reviewer_tg_username r = u" by simp
  qed
  then show ?thesis by (rule handle_reviewer_done_accepts[OF sub st pd latest nd])
qed

text \<open>
  C4. When the rows of a submission that are not declined are a single row, the
  latest one of its reviewer, one event of that reviewer advances the submission:
  an accept of the pending row moves it to under review, and a done-mark (the
  submission being under review or assigning, the publish date computable) moves it to
  accepted. Neither check asks for a second reviewer.
\<close>

theorem single_reviewer_advances:
  "get_submission_by_id w sid = Some sub \<and>
   filter (\<lambda>r. asg_submission_id r = sid \<and> asg_status r \<noteq> Declined) (assignments w) = [a] \<and>
   get_assignment w sid u = Some a \<longrightarrow>
     (asg_status a = Pending \<longrightarrow>
        status_of (fst (handle_reviewer_accept cfg e w sid u tg)) sid = Some UnderReview) \<and>
     (asg_status a \<noteq> Done \<and>
      (sub_status sub = UnderReview \<or> sub_status sub = Assigning) \<and>
      compute_publish_date (local_now e)
        (case publish_time cfg of None \<Rightarrow> ''09:30'' | Some t \<Rightarrow> t) = Inr d \<longrightarrow>
        status_of (fst (handle_reviewer_done cfg e w sid u tg)) sid = Some Accepted)"
  using handle_reviewer_accept_single[of w sid sub a u cfg e tg]
    handle_reviewer_done_single[of w sid sub a u e cfg d tg]
  by blast

text \<open>
  One reviewer, \<open>alice\<close>: her accept moves the submission from assigning to under
  review, and her done-mark moves it from there to accepted.
\<close>

theorem single_reviewer_advances_witness:
  "status_of demo_assigning 1 = Some Assigning \<and>
   length (filter (\<lambda>r. asg_submission_id r = 1 \<and> asg_status r \<noteq> Declined)
             (assignments demo_assigning)) = 1 \<and>
   status_of (fst (handle_reviewer_accept demo_cfg (demo_env 20) demo_assigning 1 ''alice'' 7)) 1 =
     Some UnderReview \<and>
   status_of demo_under_review 1 = Some UnderReview \<and>
   length (filter (\<lambda>r. asg_submission_id r = 1 \<and> asg_status r \<noteq> Declined)
             (assignments demo_under_review)) = 1 \<and>
   status_of (fst (handle_reviewer_done demo_cfg (demo_env 30) demo_under_review 1 ''alice'' 7)) 1 =
     Some Accepted"
proof -
  let ?sub1 = "\<lparr>sub_id = 1, sub_email = demo_mail, sub_status = Assigning, created_at = 10,
               accepted_at = None, rejected_at = None, publish_date = None,
               tg_status_message_id = Some 100\<rparr>"
  let ?a1 = "\<lparr>asg_id = 1, asg_submission_id = 1, reviewer_tg_username = ''alice'',
             reviewer_tg_id = None, asg_status = Pending, assigned_at = 10,
             responded_at = None, done_at = None\<rparr>"
  let ?sub2 = "\<lparr>sub_id = 1, sub_email = demo_mail, sub_status = UnderReview, created_at = 10,
               accepted_at = None, rejected_at = None, publish_date = None,
               tg_status_message_id = Some 100\<rparr>"
  let ?a2 = "\<lparr>asg_id = 1, asg_submission_id = 1, reviewer_tg_username = ''alice'',
             reviewer_tg_id = Some 7, asg_status = Confirmed, assigned_at = 10,
             responded_at = Some 20, done_at = None\<rparr>"
  let ?d = "\<lparr>dt_ordinal = 738893, dt_hour = 9, dt_minute = 30, dt_second = 0,
             dt_microsecond = 0\<rparr>"
  have a1: "get_submission_by_id demo_assigning 1 = Some ?sub1" by code_simp
  have a2: "filter (\<lambda>r. asg_submission_id r = 1 \<and> asg_status r \<noteq> Declined)
              (assignments demo_assigning) = [?a1]" by code_simp
  have a3: "get_assignment demo_assigning 1 ''alice'' = Some ?a1" by code_simp
  have a4: "asg_status ?a1 = Pending" by simp
  have b1: "get_submission_by_id demo_under_review 1 = Some ?sub2" by code_simp
  have b2: "filter (\<lambda>r. asg_submission_id r = 1 \<and> asg_status r \<noteq> Declined)
              (assignments demo_under_review) = [?a2]" by code_simp
  have b3: "get_assignment demo_under_review 1 ''alice'' = Some ?a2" by code_simp
  have b4: "asg_status ?a2 \<noteq> Done" "sub_status ?sub2 = UnderReview" by simp_all
  have b5: "compute_publish_date (local_now (demo_env 30))
           (case publish_time demo_cfg of None \<Rightarrow> ''09:30'' | Some t \<Rightarrow> t) = Inr ?d"
    by code_simp
  from single_reviewer_advances
         [of demo_assigning 1 ?sub1 ?a1 "''alice''" demo_cfg "demo_env 20" 7 ?d] a1 a2 a3 a4
  have r1: "status_of (fst (handle_reviewer_accept demo_cfg (demo_env 20) demo_assigning 1
              ''alice'' 7)) 1 = Some UnderReview" by blast
  from single_reviewer_advances
         [of demo_under_review 1 ?sub2 ?a2 "''alice''" demo_cfg "demo_env 30" 7 ?d]
       b1 b2 b3 b4 b5
  have r2: "status_of (fst (handle_reviewer_done demo_cfg (demo_env 30) demo_under_review 1
              ''alice'' 7)) 1 = Some Accepted" by blast
  have s1: "status_of demo_assigning 1 = Some Assigning" using a1 by (simp add: status_of_def)
  have s2: "status_of demo_under_review 1 = Some UnderReview"
    using b1 by (simp add: status_of_def)
  from s1 s2 a2 b2 r1 r2 show ?thesis by simp
qed

section \<open>Rejection by consensus\<close>

lemma post_chat_log [simp]: "chat_log (post w m) = chat_log w @ [m]"
  by (simp add: post_def)

lemma send_mail_mail_log [simp]: "mail_log (send_mail w m) = mail_log w @ [m]"
  by (simp add: send_mail_def)

lemma latest_by_time_map:
  "(\<And>r. proposed_at (f r) = proposed_at r) \<Longrightarrow>
   latest_by_time (map f xs) = map_option f (latest_by_time xs)"
  by (induction xs) (auto split: option.splits)

lemma latest_by_time_mem: "latest_by_time xs = Some r \<Longrightarrow> r \<in> set xs"
  by (induction xs arbitrary: r) (auto split: option.splits if_splits)

lemma get_active_rejection_add_second:
  assumes "get_active_rejection w sid = Some rej"
    and "add_second_to_rejection w (rej_id rej) u = (w1, secs)"
  shows "get_active_rejection w1 sid = Some (rej\<lparr>seconds := secs\<rparr>)"
proof -
  define f where "f = (\<lambda>r::rejection. if rej_id r = rej_id rej then r\<lparr>seconds := secs\<rparr> else r)"
  have w1: "rejections w1 = map f (rejections w)"
    using assms(2) unfolding add_second_to_rejection_def Let_def f_def by auto
  have fil: "filter (\<lambda>r. rej_submission_id r = sid) (map f xs) =
             map f (filter (\<lambda>r. rej_submission_id r = sid) xs)" for xs
    by (induction xs) (auto simp: f_def)
  have "latest_by_time (map f xs) = map_option f (latest_by_time xs)" for xs
    by (rule latest_by_time_map) (simp add: f_def)
  then have "get_active_rejection w1 sid = map_option f (get_active_rejection w sid)"
    unfolding get_active_rejection_def w1 fil by simp
  then show ?thesis using assms(1) by (simp add: f_def)
qed

lemma add_second_frame:
  assumes "add_second_to_rejection w rid u = (w1, secs)"
  shows "chat_log w1 = chat_log w" "submissions w1 = submissions w"
  using assms unfolding add_second_to_rejection_def Let_def by auto

lemma handle_second_posts:
  "chat_log (fst (handle_second cfg e w sid u)) = chat_log w \<or>
   (\<exists>rej rej'. get_active_rejection w sid = Some rej \<and>
      get_active_rejection (fst (handle_second cfg e w sid u)) sid = Some rej' \<and>
      chat_log (fst (handle_second cfg e w sid u)) =
        chat_log w @ [MsgSecondEdit (tg_proposal_message_id rej) (seconds rej')
                        (2 \<le> length (seconds rej'))])"
proof (cases "get_active_rejection w sid")
  case None
  then show ?thesis by (simp add: handle_second_def)
next
  case (Some rej)
  show ?thesis
  proof (cases "u = proposed_by rej")
    case True
    with Some show ?thesis by (simp add: handle_second_def)
  next
    case False
    obtain w1 secs where ad: "add_second_to_rejection w (rej_id rej) u = (w1, secs)"
      by (meson surj_pair)
    note act = get_active_rejection_add_second[OF Some ad]
    note fr = add_second_frame[OF ad]
    have rj: "rejections (post w1 m) = rejections w1" for m by simp
    have act': "get_active_rejection (post w1 m) sid = Some (rej\<lparr>seconds := secs\<rparr>)" for m
      using act by (simp add: get_active_rejection_def)
    show ?thesis
    proof (cases "get_submission_by_id w1 sid")
      case None
      with \<open>get_active_rejection w sid = Some rej\<close> False ad fr show ?thesis
        by (simp add: handle_second_def Let_def)
    next
      case (Some sub)
      show ?thesis
      proof (cases "chat_ok e")
        case False
        with \<open>get_active_rejection w sid = Some rej\<close> \<open>u \<noteq> proposed_by rej\<close> ad fr Some
        show ?thesis by (simp add: handle_second_def Let_def)
      next
        case True
        with \<open>get_active_rejection w sid = Some rej\<close> \<open>u \<noteq> proposed_by rej\<close> ad fr Some act'
        show ?thesis by (simp add: handle_second_def Let_def)
      qed
    qed
  qed
qed

lemma status_of_set_rejected:
  "status_of (set_submission_rejected w sid t) sid' =
     (if sid = sid' \<and> status_of w sid' \<noteq> None then Some Rejected else status_of w sid')"
  by (cases "get_submission_by_id w sid'")
     (auto simp: status_of_def get_submission_set_rejected dest: get_submission_sub_id)

lemma handle_confirm_rejection_forbidden:
  "operator_user_id cfg = Some oid \<Longrightarrow> oid \<noteq> 0 \<Longrightarrow> tg \<noteq> oid \<Longrightarrow>
     handle_confirm_rejection cfg e w sid tg = (w, Inr OnlyOperator)"
  by (simp add: handle_confirm_rejection_def)

lemma handle_confirm_rejection_rejects:
  assumes "operator_user_id cfg = None \<or> operator_user_id cfg = Some 0 \<or>
           operator_user_id cfg = Some tg"
    and "get_submission_by_id w sid = Some sub"
  shows "status_of (fst (handle_confirm_rejection cfg e w sid tg)) sid = Some Rejected"
proof -
  have c: "\<not> (case operator_user_id cfg of None \<Rightarrow> False
              | Some oid \<Rightarrow> oid \<noteq> 0 \<and> tg \<noteq> oid)"
    using assms(1) by auto
  have "status_of w sid = Some (sub_status sub)" using assms(2) by (simp add: status_of_def)
  then have s: "status_of (set_submission_rejected w sid (clock e)) sid = Some Rejected"
    by (simp add: status_of_set_rejected)
  show ?thesis
    unfolding handle_confirm_rejection_def Let_def
    using c assms(2) s by simp
qed

text \<open>
  C2, as the source has it. The confirm button is offered only at two seconders:
  whatever \<open>handle_second\<close> posts is an edit of the proposal's message that carries
  the button exactly when the active proposal then holds at least two seconders.
  \<open>handle_confirm_rejection\<close> itself never reads the seconders: a caller other than
  the configured operator changes nothing, and for any other call on an existing
  submission the status becomes rejected.
\<close>

theorem confirm_button_needs_two_seconders:
  "(chat_log (fst (handle_second cfg e w sid u)) = chat_log w \<or>
    (\<exists>rej rej'. get_active_rejection w sid = Some rej \<and>
       get_active_rejection (fst (handle_second cfg e w sid u)) sid = Some rej' \<and>
       chat_log (fst (handle_second cfg e w sid u)) =
         chat_log w @ [MsgSecondEdit (tg_proposal_message_id rej) (seconds rej')
                         (2 \<le> length (seconds rej'))])) \<and>
   (operator_user_id cfg = Some oid \<and> oid \<noteq> 0 \<and> tg \<noteq> oid \<longrightarrow>
      handle_confirm_rejection cfg e w sid tg = (w, Inr OnlyOperator)) \<and>
   ((operator_user_id cfg = None \<or> operator_user_id cfg = Some 0 \<or>
     operator_user_id cfg = Some tg) \<and>
    get_submission_by_id w sid = Some sub \<longrightarrow>
      status_of (fst (handle_confirm_rejection cfg e w sid tg)) sid = Some Rejected)"
  using handle_second_posts[of cfg e w sid u]
    handle_confirm_rejection_forbidden[of cfg oid tg e w sid]
    handle_confirm_rejection_rejects[of cfg tg w sid sub e]
  by blast

text \<open>
  On the superseded proposal: a first second of the new proposal is posted without
  the button; a caller who is not operator 5 is turned away; with no operator
  configured the confirm goes through.
\<close>

theorem confirm_button_needs_two_seconders_witness:
  "chat_log (fst (handle_second demo_cfg (demo_env 70) demo_superseded 1 ''carol'')) =
     chat_log demo_superseded @ [MsgSecondEdit (Some 100) [''carol''] False] \<and>
   handle_confirm_rejection (demo_cfg\<lparr>operator_user_id := Some 5\<rparr>) (demo_env 70)
       demo_superseded 1 99 = (demo_superseded, Inr OnlyOperator) \<and>
   status_of (fst (handle_confirm_rejection demo_cfg (demo_env 70) demo_superseded 1 99)) 1 =
     Some Rejected"
proof -
  let ?sub = "\<lparr>sub_id = 1, sub_email = demo_mail, sub_status = Assigning, created_at = 10,
               accepted_at = None, rejected_at = None, publish_date = None,
               tg_status_message_id = Some 100\<rparr>"
  have h1: "operator_user_id (demo_cfg\<lparr>operator_user_id := Some 5\<rparr>) = Some 5"
    "(5::int) \<noteq> 0" "(99::int) \<noteq> 5" by simp_all
  have h2: "operator_user_id demo_cfg = None" by (simp add: demo_cfg_def)
  have h3: "get_submission_by_id demo_superseded 1 = Some ?sub" by code_simp
  have r1: "chat_log (fst (handle_second demo_cfg (demo_env 70) demo_superseded 1 ''carol'')) =
     chat_log demo_superseded @ [MsgSecondEdit (Some 100) [''carol''] False]" by code_simp
  from confirm_button_needs_two_seconders
         [of "demo_cfg\<lparr>operator_user_id := Some 5\<rparr>" "demo_env 70" demo_superseded 1
             "''carol''" 5 99 ?sub] h1
  have r2: "handle_confirm_rejection (demo_cfg\<lparr>operator_user_id := Some 5\<rparr>) (demo_env 70)
       demo_superseded 1 99 = (demo_superseded, Inr OnlyOperator)" by blast
  from confirm_button_needs_two_seconders
         [of demo_cfg "demo_env 70" demo_superseded 1 "''carol''" 5 99 ?sub] h2 h3
  have r3: "status_of (fst (handle_confirm_rejection demo_cfg (demo_env 70) demo_superseded 1
              99)) 1 = Some Rejected" by blast
  from r1 r2 r3 show ?thesis by blast
qed

text \<open>
  C2 as stated fails. The first proposal on submission 1 reached two seconders, so
  its message shows the confirm button; a later proposal superseded it and has no
  seconder. Pressing the button still rejects the submission, and the author is
  mailed the reason of the proposal nobody seconded.
\<close>

theorem confirm_rejection_ignores_seconders:
  "map_option seconds (get_active_rejection demo_superseded 1) = Some [] \<and>
   MsgSecondEdit (Some 100) [''carol'', ''dave''] True \<in> set (chat_log demo_superseded) \<and>
   status_of demo_superseded 1 = Some Assigning \<and>
   status_of (fst (handle_confirm_rejection demo_cfg (demo_env 70) demo_superseded 1 99)) 1 =
     Some Rejected \<and>
   mail_log (fst (handle_confirm_rejection demo_cfg (demo_env 70) demo_superseded 1 99)) =
     [RejectionEmail 1 ''too long'']"
  by code_simp

section \<open>Terminal states\<close>

text \<open>
  C1 fails on the code. \<open>handle_reviewer_accept\<close> never reads the submission's
  status (\<open>handle_reviewer_done\<close> does), so an accept of a row that is still pending
  moves a rejected submission, and likewise an accepted one, back to under review,
  schedules a follow-up and mails the author that the article is under review.
\<close>

theorem accept_reopens_terminal_submission:
  "status_of demo_rejected 1 = Some Rejected \<and>
   status_of (run demo_cfg demo_rejected [(demo_env 80, Accept 1 ''alice'' 7)]) 1 =
     Some UnderReview \<and>
   mail_log (run demo_cfg demo_rejected [(demo_env 80, Accept 1 ''alice'' 7)]) =
     [RejectionEmail 1 ''off topic'', UnderReviewEmail 1] \<and>
   status_of demo_accepted_early 1 = Some Accepted \<and>
   status_of (run demo_cfg demo_accepted_early [(demo_env 80, Accept 1 ''bob'' 8)]) 1 =
     Some UnderReview"
  by code_simp

section \<open>What each handler does to the tables\<close>

lemma known_sub_id: "(get_submission_by_id w sid \<noteq> None) = (sid \<in> set (sub_ids w))"
  by (auto simp: get_submission_by_id_def sub_ids_def find_None_iff)

lemma sub_ids_same [simp]:
  "sub_ids (post w m) = sub_ids w"
  "sub_ids (send_mail w ml) = sub_ids w"
  "sub_ids (update_submission_status w s st) = sub_ids w"
  "sub_ids (set_submission_accepted w s d t) = sub_ids w"
  "sub_ids (set_submission_rejected w s t) = sub_ids w"
  "sub_ids (set_tg_status_message_id w s mid) = sub_ids w"
  "sub_ids (update_assignment_status w s u ast tg t) = sub_ids w"
  "sub_ids (mark_assignment_done w s u tg t) = sub_ids w"
  "sub_ids (clear_pending_assignments w s) = sub_ids w"
  "sub_ids (mark_followup_sent w fid t) = sub_ids w"
  "sub_ids (set_rejection_proposal_message_id w rid mid) = sub_ids w"
  by (simp_all add: sub_ids_def update_submission_status_def set_submission_accepted_def
      set_submission_rejected_def set_tg_status_message_id_def comp_def)

lemma sub_ids_frame: "submissions w' = submissions w \<Longrightarrow> sub_ids w' = sub_ids w"
  by (simp add: sub_ids_def)

lemma next_rowid_fresh: "i \<in> set ids \<Longrightarrow> i < next_rowid ids"
  unfolding next_rowid_def by (induction ids) auto

lemma insert_followup_effect:
  "insert_followup w sid at = Inr w' \<Longrightarrow>
     sid \<in> set (sub_ids w) \<and> followups w' = followups w @ [new_followup w sid at]"
  using known_sub_id[of w sid]
  by (auto simp: insert_followup_def new_followup_def Let_def split: if_splits)

lemma insert_followup_refused:
  "insert_followup w sid at = Inl err \<Longrightarrow> sid \<notin> set (sub_ids w)"
  using known_sub_id[of w sid]
  by (auto simp: insert_followup_def Let_def split: if_splits)

lemma transition_to_under_review_tables:
  "assignments (fst (transition_to_under_review cfg e w sid)) = assignments w"
  "sub_ids (fst (transition_to_under_review cfg e w sid)) = sub_ids w"
  "followups (fst (transition_to_under_review cfg e w sid)) = followups w \<or>
   (sid \<in> set (sub_ids w) \<and>
    followups (fst (transition_to_under_review cfg e w sid)) =
      followups w @ [new_followup w sid (clock e + followup_interval_days cfg * 86400)])"
proof -
  define w1 where "w1 = update_submission_status w sid UnderReview"
  define at where "at = clock e + followup_interval_days cfg * 86400"
  show "assignments (fst (transition_to_under_review cfg e w sid)) = assignments w"
    by (rule transition_to_under_review_assignments)
  show "sub_ids (fst (transition_to_under_review cfg e w sid)) = sub_ids w"
    unfolding transition_to_under_review_def Let_def
    by (auto split: sum.splits option.splits
        dest!: insert_followup_frame(1) sub_ids_frame)
  show "followups (fst (transition_to_under_review cfg e w sid)) = followups w \<or>
   (sid \<in> set (sub_ids w) \<and>
    followups (fst (transition_to_under_review cfg e w sid)) =
      followups w @ [new_followup w sid (clock e + followup_interval_days cfg * 86400)])"
  proof (cases "insert_followup w1 sid at")
    case (Inl err)
    then show ?thesis
      unfolding transition_to_under_review_def Let_def w1_def at_def by simp
  next
    case (Inr w2)
    from insert_followup_effect[OF Inr]
    have "sid \<in> set (sub_ids w)" "followups w2 = followups w @ [new_followup w sid at]"
      by (simp_all add: w1_def new_followup_def)
    with Inr show ?thesis
      unfolding transition_to_under_review_def Let_def w1_def at_def
      by (auto split: option.splits)
  qed
qed

lemma handle_reviewer_accept_tables:
  "fst (handle_reviewer_accept cfg e w sid u tg) = w \<or>
   (\<exists>a. get_assignment w sid u = Some a \<and> asg_status a = Pending \<and>
      assignments (fst (handle_reviewer_accept cfg e w sid u tg)) =
        assignments (update_assignment_status w sid u Confirmed (Some tg) (clock e)) \<and>
      sub_ids (fst (handle_reviewer_accept cfg e w sid u tg)) = sub_ids w \<and>
      (followups (fst (handle_reviewer_accept cfg e w sid u tg)) = followups w \<or>
       (no_pending_rows (update_assignment_status w sid u Confirmed (Some tg) (clock e)) sid \<and>
        sid \<in> set (sub_ids w) \<and>
        followups (fst (handle_reviewer_accept cfg e w sid u tg)) =
          followups w @ [new_followup w sid (clock e + followup_interval_days cfg * 86400)])))"
proof (cases "get_assignment w sid u")
  case None
  then show ?thesis by (simp add: handle_reviewer_accept_def)
next
  case (Some a)
  show ?thesis
  proof (cases "asg_status a = Pending")
    case False
    with Some show ?thesis by (simp add: handle_reviewer_accept_def)
  next
    case True
    define w1 where "w1 = update_assignment_status w sid u Confirmed (Some tg) (clock e)"
    define active where "active = filter (\<lambda>a. asg_status a \<noteq> Declined)
                          (get_assignments_for_submission w1 sid)"
    let ?w' = "fst (handle_reviewer_accept cfg e w sid u tg)"
    have asg: "assignments ?w' = assignments w1"
      unfolding w1_def by (rule handle_reviewer_accept_pending[OF Some True])
    show ?thesis
    proof (cases "filter (\<lambda>a. asg_status a = Pending) active = [] \<and> active \<noteq> []")
      case False
      then have "?w' = w1"
        unfolding handle_reviewer_accept_def Let_def w1_def[symmetric] active_def[symmetric]
        using Some True by auto
      then show ?thesis using Some True by (auto simp: w1_def)
    next
      case c: True
      then have eq: "?w' = fst (transition_to_under_review cfg e w1 sid)"
        unfolding handle_reviewer_accept_def Let_def w1_def[symmetric] active_def[symmetric]
        using Some True by simp
      have np: "no_pending_rows w1 sid"
        using c unfolding no_pending_rows_def active_def get_assignments_for_submission_def
        by (auto simp: filter_empty_conv)
      have fw: "followups w1 = followups w" "sub_ids w1 = sub_ids w"
        by (simp_all add: w1_def)
      have nf: "new_followup w1 sid at = new_followup w sid at" for at
        by (simp add: new_followup_def fw)
      from transition_to_under_review_tables(2,3)[of cfg e w1 sid]
      have "sub_ids ?w' = sub_ids w"
        and "followups ?w' = followups w \<or>
          (sid \<in> set (sub_ids w) \<and> followups ?w' =
           followups w @ [new_followup w sid (clock e + followup_interval_days cfg * 86400)])"
        unfolding eq fw nf by auto
      with Some True asg np show ?thesis unfolding w1_def by blast
    qed
  qed
qed

lemma insert_assignment_effect:
  "insert_assignment w sid u now = Inr w' \<Longrightarrow>
     sid \<in> set (sub_ids w) \<and> sub_ids w' = sub_ids w \<and> followups w' = followups w \<and>
     (\<exists>row. assignments w' = assignments w @ [row] \<and> asg_submission_id row = sid \<and>
        reviewer_tg_username row = u \<and> asg_status row = Pending)"
  using known_sub_id[of w sid]
  by (auto simp: insert_assignment_def sub_ids_def Let_def split: if_splits)

lemma insert_each_effect:
  "insert_each w sid rs now = (w', r) \<Longrightarrow>
     sub_ids w' = sub_ids w \<and> followups w' = followups w \<and>
     (\<exists>rows. assignments w' = assignments w @ rows \<and>
        (\<forall>row\<in>set rows. asg_submission_id row = sid \<and> asg_status row = Pending \<and>
           reviewer_tg_username row \<in> set rs))"
proof (induction rs arbitrary: w)
  case Nil
  then show ?case by simp
next
  case (Cons x rs)
  show ?case
  proof (cases "insert_assignment w sid x now")
    case (Inl err)
    with Cons.prems show ?thesis by simp
  next
    case (Inr w1)
    from insert_assignment_effect[OF Inr] obtain row where
      w1: "sub_ids w1 = sub_ids w" "followups w1 = followups w"
      "assignments w1 = assignments w @ [row]" "asg_submission_id row = sid"
      "reviewer_tg_username row = x" "asg_status row = Pending" by blast
    from Cons.prems Inr have "insert_each w1 sid rs now = (w', r)" by simp
    from Cons.IH[OF this] obtain rows where
      w': "sub_ids w' = sub_ids w1" "followups w' = followups w1"
      "assignments w' = assignments w1 @ rows"
      "\<forall>row\<in>set rows. asg_submission_id row = sid \<and> asg_status row = Pending \<and>
           reviewer_tg_username row \<in> set rs" by blast
    have "assignments w' = assignments w @ (row # rows)" using w1 w' by simp
    moreover have "\<forall>r\<in>set (row # rows). asg_submission_id r = sid \<and> asg_status r = Pending \<and>
           reviewer_tg_username r \<in> set (x # rs)" using w1 w' by auto
    ultimately show ?thesis using w1 w' by metis
  qed
qed

lemma usernames_after_retag:
  assumes "\<And>a. asg_submission_id (g a) = asg_submission_id a"
    and "\<And>a. reviewer_tg_username (g a) = reviewer_tg_username a"
  shows "map reviewer_tg_username (filter (\<lambda>a. asg_submission_id a = sid) (map g xs)) =
         map reviewer_tg_username (filter (\<lambda>a. asg_submission_id a = sid) xs)"
  by (induction xs) (simp_all add: assms)

lemma handle_reviewer_decline_tables:
  "fst (handle_reviewer_decline cfg e w sid u tg orc) = w \<or>
   (\<exists>a. get_assignment w sid u = Some a \<and> asg_status a = Pending \<and>
      sub_ids (fst (handle_reviewer_decline cfg e w sid u tg orc)) = sub_ids w \<and>
      followups (fst (handle_reviewer_decline cfg e w sid u tg orc)) = followups w \<and>
      (assignments (fst (handle_reviewer_decline cfg e w sid u tg orc)) =
         assignments (update_assignment_status w sid u Declined (Some tg) (clock e)) \<or>
       (\<exists>row. assignments (fst (handle_reviewer_decline cfg e w sid u tg orc)) =
            assignments (update_assignment_status w sid u Declined (Some tg) (clock e)) @ [row] \<and>
          sid \<in> set (sub_ids w) \<and>
          asg_submission_id row = sid \<and> asg_status row = Pending \<and>
          py_lower (reviewer_tg_username row) \<notin>
            set (map py_lower (map reviewer_tg_username (get_assignments_for_submission w sid))))))"
proof (cases "get_assignment w sid u")
  case None
  then show ?thesis by (simp add: handle_reviewer_decline_def)
next
  case (Some a)
  show ?thesis
  proof (cases "asg_status a = Pending")
    case False
    with Some show ?thesis by (simp add: handle_reviewer_decline_def)
  next
    case True
    define w1 where "w1 = update_assignment_status w sid u Declined (Some tg) (clock e)"
    define excluded where
      "excluded = map reviewer_tg_username (get_assignments_for_submission w1 sid)"
    let ?w' = "fst (handle_reviewer_decline cfg e w sid u tg orc)"
    have ex: "excluded = map reviewer_tg_username (get_assignments_for_submission w sid)"
      unfolding excluded_def w1_def get_assignments_for_submission_def
        update_assignment_status_def
      by (simp add: usernames_after_retag)
    have w1t: "sub_ids w1 = sub_ids w" "followups w1 = followups w" by (simp_all add: w1_def)
    obtain w2 raised where ra: "replacement_attempt e w1 sid u excluded orc = (w2, raised)"
      by (meson surj_pair)
    have w2: "sub_ids w2 = sub_ids w \<and> followups w2 = followups w \<and>
       (assignments w2 = assignments w1 \<or>
        (\<exists>row. assignments w2 = assignments w1 @ [row] \<and> sid \<in> set (sub_ids w) \<and>
           asg_submission_id row = sid \<and> asg_status row = Pending \<and>
           py_lower (reviewer_tg_username row) \<notin> set (map py_lower excluded)))"
    proof (cases orc)
      case PickerFailure
      with ra w1t show ?thesis by (simp add: replacement_attempt_def)
    next
      case (PickerReply r)
      show ?thesis
      proof (cases "reviewer1 r")
        case None
        with ra w1t PickerReply show ?thesis by (simp add: replacement_attempt_def)
      next
        case r1: (Some r1)
        show ?thesis
        proof (cases "py_strip r1 = [] \<or>
                      py_lower (py_strip r1) \<in> set (map py_lower excluded)")
          case True
          with ra w1t PickerReply r1 show ?thesis
            by (auto simp: replacement_attempt_def Let_def)
        next
          case ok: False
          show ?thesis
          proof (cases "insert_assignment w1 sid (py_strip r1) (clock e)")
            case (Inl err)
            with ra w1t PickerReply r1 ok show ?thesis
              by (auto simp: replacement_attempt_def Let_def)
          next
            case (Inr w3)
            from insert_assignment_effect[OF Inr] obtain row where
              w3: "sid \<in> set (sub_ids w1)" "sub_ids w3 = sub_ids w1"
              "followups w3 = followups w1" "assignments w3 = assignments w1 @ [row]"
              "asg_submission_id row = sid" "reviewer_tg_username row = py_strip r1"
              "asg_status row = Pending" by blast
            have "w2 = w3 \<or> w2 = post w3 (MsgReplacement sid u (py_strip r1))"
              using ra PickerReply r1 ok Inr
              by (auto simp: replacement_attempt_def Let_def split: if_splits)
            then have "sub_ids w2 = sub_ids w3" "followups w2 = followups w3"
              "assignments w2 = assignments w3" by auto
            with w3 w1t ok show ?thesis by auto
          qed
        qed
      qed
    qed
    have "?w' = w1 \<or> ?w' = w2 \<or> (\<exists>m. ?w' = post w2 m)"
      unfolding handle_reviewer_decline_def Let_def w1_def[symmetric] excluded_def[symmetric]
      using Some True ra by (auto split: option.splits bool.splits)
    then have t: "sub_ids ?w' = sub_ids w \<and> followups ?w' = followups w \<and>
       (assignments ?w' = assignments w1 \<or>
        (\<exists>row. assignments ?w' = assignments w1 @ [row] \<and> sid \<in> set (sub_ids w) \<and>
           asg_submission_id row = sid \<and> asg_status row = Pending \<and>
           py_lower (reviewer_tg_username row) \<notin> set (map py_lower excluded)))"
      using w2 w1t by auto
    show ?thesis using Some True t unfolding w1_def ex by blast
  qed
qed

lemma handle_reviewer_done_tables:
  "fst (handle_reviewer_done cfg e w sid u tg) = w \<or>
   (sub_ids (fst (handle_reviewer_done cfg e w sid u tg)) = sub_ids w \<and>
    followups (fst (handle_reviewer_done cfg e w sid u tg)) = followups w \<and>
    assignments (fst (handle_reviewer_done cfg e w sid u tg)) =
      assignments (mark_assignment_done w sid u (Some tg) (clock e)))"
proof (cases "get_submission_by_id w sid")
  case None
  then show ?thesis by (simp add: handle_reviewer_done_def)
next
  case (Some sub)
  show ?thesis
  proof (cases "sub_status sub = UnderReview \<or> sub_status sub = Assigning")
    case False
    with Some show ?thesis by (simp add: handle_reviewer_done_def)
  next
    case st: True
    show ?thesis
    proof (cases "get_assignment w sid u")
      case None
      with Some st show ?thesis by (auto simp: handle_reviewer_done_def)
    next
      case a: (Some a)
      show ?thesis
      proof (cases "asg_status a = Done")
        case True
        with Some st a show ?thesis by (auto simp: handle_reviewer_done_def)
      next
        case False
        define w1 where "w1 = mark_assignment_done w sid u (Some tg) (clock e)"
        let ?w' = "fst (handle_reviewer_done cfg e w sid u tg)"
        have asg: "assignments ?w' = assignments w1"
          unfolding w1_def by (rule handle_reviewer_done_marks[OF Some st a False])
        have "(\<exists>dl. ?w' = fst (transition_to_accepted cfg e w1 sid dl)) \<or> ?w' = w1 \<or>
              (\<exists>m. ?w' = post w1 m)"
          unfolding handle_reviewer_done_unfold[OF Some st a False] Let_def w1_def[symmetric]
          by (auto split: if_splits)
        moreover have "sub_ids (fst (transition_to_accepted cfg e w1 sid dl)) = sub_ids w1 \<and>
              followups (fst (transition_to_accepted cfg e w1 sid dl)) = followups w1" for dl
          unfolding transition_to_accepted_def Let_def
          by (auto split: sum.splits option.splits)
        ultimately have "sub_ids ?w' = sub_ids w1 \<and> followups ?w' = followups w1"
          by auto
        then show ?thesis using asg by (simp add: w1_def)
      qed
    qed
  qed
qed

lemma insert_submission_effect:
  "insert_submission w ed now = Inr (w1, nid) \<Longrightarrow>
     nid = next_rowid (sub_ids w) \<and> sub_ids w1 = sub_ids w @ [nid] \<and>
     assignments w1 = assignments w \<and> followups w1 = followups w"
  by (auto simp: insert_submission_def sub_ids_def Let_def split: if_splits)

lemma handle_new_submission_tables:
  "fst (handle_new_submission cfg e w ed orc) = w \<or>
   (sub_ids (fst (handle_new_submission cfg e w ed orc)) =
      sub_ids w @ [next_rowid (sub_ids w)] \<and>
    followups (fst (handle_new_submission cfg e w ed orc)) = followups w \<and>
    (\<exists>rows. assignments (fst (handle_new_submission cfg e w ed orc)) = assignments w @ rows \<and>
       (\<forall>row\<in>set rows. asg_submission_id row = next_rowid (sub_ids w) \<and>
          asg_status row = Pending)))"
proof (cases "get_submission_by_gmail_id w (ed_gmail_message_id ed) = None")
  case False
  then show ?thesis by (simp add: handle_new_submission_def)
next
  case True
  then obtain w1 nid where ins: "insert_submission w ed (clock e) = Inr (w1, nid)"
    using insert_submission_fresh by blast
  note i = insert_submission_effect[OF ins]
  let ?w' = "fst (handle_new_submission cfg e w ed orc)"
  have base: "sub_ids w1 = sub_ids w @ [next_rowid (sub_ids w)] \<and>
      followups w1 = followups w \<and>
      (\<exists>rows. assignments w1 = assignments w @ rows \<and>
       (\<forall>row\<in>set rows. asg_submission_id row = next_rowid (sub_ids w) \<and>
          asg_status row = Pending))" using i by simp
  show ?thesis
  proof (cases orc)
    case PickerFailure
    then have "?w' = w1 \<or> (\<exists>m. ?w' = post w1 m)"
      using True ins by (auto simp: handle_new_submission_def)
    with base show ?thesis by auto
  next
    case (PickerReply r)
    show ?thesis
    proof (cases "reviewer1 r")
      case None
      then have "?w' = w1" using True ins PickerReply by (simp add: handle_new_submission_def)
      with base show ?thesis by auto
    next
      case (Some r1)
      obtain w2 res where ie: "insert_each w1 nid
         (map py_strip (filter (\<lambda>x. x \<noteq> [] \<and> py_strip x \<noteq> [])
            [r1, case reviewer2 r of None \<Rightarrow> [] | Some x \<Rightarrow> x])) (clock e) = (w2, res)"
        by (meson surj_pair)
      from insert_each_effect[OF ie] obtain rows where
        w2: "sub_ids w2 = sub_ids w1" "followups w2 = followups w1"
        "assignments w2 = assignments w1 @ rows"
        "\<forall>row\<in>set rows. asg_submission_id row = nid \<and> asg_status row = Pending" by blast
      define w3 where "w3 = update_submission_status w2 nid Assigning"
      have "?w' = w2 \<or> ?w' = w3 \<or>
            (\<exists>m1 m2 mid. ?w' = set_tg_status_message_id (post (post w3 m1) m2) nid mid)"
        using True ins PickerReply Some ie
        by (cases res)
           (auto simp add: handle_new_submission_def Let_def w3_def simp del: filter.simps)
      then have "sub_ids ?w' = sub_ids w2 \<and> followups ?w' = followups w2 \<and>
                 assignments ?w' = assignments w2"
        unfolding w3_def by auto
      with w2 i show ?thesis by auto
    qed
  qed
qed

lemma insert_rejection_effect:
  "insert_rejection w sid by_user why mid now = Inr (w1, rid) \<Longrightarrow>
     sub_ids w1 = sub_ids w \<and> assignments w1 = assignments w \<and> followups w1 = followups w"
  by (auto simp: insert_rejection_def sub_ids_def Let_def split: if_splits)

lemma handle_rejection_proposal_tables:
  "sub_ids (fst (handle_rejection_proposal cfg e w sid by_user why)) = sub_ids w"
  "assignments (fst (handle_rejection_proposal cfg e w sid by_user why)) = assignments w"
  "followups (fst (handle_rejection_proposal cfg e w sid by_user why)) = followups w"
  unfolding handle_rejection_proposal_def Let_def
  by (auto split: sum.splits option.splits prod.splits dest: insert_rejection_effect)

lemma add_second_tables:
  "add_second_to_rejection w rid u = (w1, secs) \<Longrightarrow>
     sub_ids w1 = sub_ids w \<and> assignments w1 = assignments w \<and> followups w1 = followups w"
  unfolding add_second_to_rejection_def Let_def sub_ids_def by auto

lemma handle_second_tables:
  "sub_ids (fst (handle_second cfg e w sid u)) = sub_ids w"
  "assignments (fst (handle_second cfg e w sid u)) = assignments w"
  "followups (fst (handle_second cfg e w sid u)) = followups w"
  unfolding handle_second_def Let_def
  by (auto split: option.splits prod.splits dest: add_second_tables)

lemma handle_confirm_rejection_tables:
  "sub_ids (fst (handle_confirm_rejection cfg e w sid tg)) = sub_ids w"
  "assignments (fst (handle_confirm_rejection cfg e w sid tg)) = assignments w"
  "followups (fst (handle_confirm_rejection cfg e w sid tg)) = followups w"
  unfolding handle_confirm_rejection_def Let_def
  by (auto split: option.splits)

lemma send_followup_tables:
  "fst (send_followup cfg e w f) = w \<or>
   (sub_ids (fst (send_followup cfg e w f)) = sub_ids w \<and>
    assignments (fst (send_followup cfg e w f)) = assignments w \<and>
    fu_submission_id f \<in> set (sub_ids w) \<and>
    followups (fst (send_followup cfg e w f)) =
      map (\<lambda>g. if fu_id g = fu_id f then g\<lparr>sent_at := Some (clock e)\<rparr> else g) (followups w) @
      [\<lparr>fu_id = next_rowid (map fu_id (followups w)),
        fu_submission_id = fu_submission_id f,
        scheduled_at = clock e + followup_interval_days cfg * 86400, sent_at = None\<rparr>])"
proof (cases "get_submission_by_id w (fu_submission_id f)")
  case None
  then show ?thesis by (simp add: send_followup_def)
next
  case (Some sub)
  define sid where "sid = fu_submission_id f"
  define active where "active = filter (\<lambda>a. asg_status a = Confirmed \<or> asg_status a = Done)
                              (get_assignments_for_submission w sid)"
  show ?thesis
  proof (cases "sub_status sub \<noteq> UnderReview \<or> active = [] \<or> \<not> chat_ok e")
    case True
    then show ?thesis
      using Some unfolding send_followup_def Let_def sid_def[symmetric] active_def[symmetric]
      by (auto simp: sid_def)
  next
    case False
    define w2 where "w2 = mark_followup_sent
        (post w (MsgFollowup sid (map reviewer_tg_username active))) (fu_id f) (clock e)"
    have in_ids: "sid \<in> set (sub_ids w)"
      using Some known_sub_id[of w sid] by (simp add: sid_def)
    then have "sid \<in> set (sub_ids w2)" by (simp add: w2_def)
    then have "get_submission_by_id w2 sid \<noteq> None" using known_sub_id[of w2 sid] by blast
    then obtain w3 where w3: "insert_followup w2 sid
        (clock e + followup_interval_days cfg * 86400) = Inr w3"
      using insert_followup_exists by blast
    have eq: "fst (send_followup cfg e w f) = w3"
      using Some False w3
      unfolding send_followup_def Let_def sid_def[symmetric] active_def[symmetric]
        w2_def[symmetric]
      by (simp add: sid_def[symmetric])
    have f2: "followups w2 =
        map (\<lambda>g. if fu_id g = fu_id f then g\<lparr>sent_at := Some (clock e)\<rparr> else g) (followups w)"
      by (simp add: w2_def mark_followup_sent_def)
    have ids: "map fu_id (followups w2) = map fu_id (followups w)"
      unfolding f2 by (induction "followups w") auto
    have "followups w3 = followups w2 @
      [\<lparr>fu_id = next_rowid (map fu_id (followups w)), fu_submission_id = sid,
        scheduled_at = clock e + followup_interval_days cfg * 86400, sent_at = None\<rparr>]"
      using insert_followup_frame(8)[OF w3] ids by simp
    moreover have "sub_ids w3 = sub_ids w" "assignments w3 = assignments w"
      using insert_followup_frame(1,2)[OF w3] by (simp_all add: sub_ids_def w2_def)
    ultimately show ?thesis using in_ids unfolding eq f2 sid_def by simp
  qed
qed

end
